theory Spec2Isabelle
  imports Main "HOL-Library.AList" "HOL-Library.Word"
begin

section \<open>Errors, machine integers and unchecked vector access\<close>

text \<open>
  The program is one C++ file, \<^verbatim>\<open>src/main.cpp\<close>. Its exceptions and its undefined
  behaviour are values of \<open>error\<close>:
  \<^item> \<open>UndefinedBehaviour\<close>: an unchecked \<^verbatim>\<open>operator[]\<close> of \<^verbatim>\<open>std::vector\<close> out of range,
    an iterator range that is not valid, a use of the uninitialised \<^verbatim>\<open>WINDOW*\<close> of a
    default-constructed \<^verbatim>\<open>Window\<close>, a \<^verbatim>\<open>printf\<close> format with a conversion and no
    argument for it, or an overflow of \<^verbatim>\<open>int\<close> arithmetic;
  \<^item> \<open>OutOfRange\<close>: \<^verbatim>\<open>std::out_of_range\<close>, thrown by \<^verbatim>\<open>unordered_map::at\<close>;
  \<^item> \<open>BadFunctionCall\<close>: \<^verbatim>\<open>std::bad_function_call\<close>, thrown by calling an empty
    \<^verbatim>\<open>std::function\<close>.
\<close>

datatype error = UndefinedBehaviour | OutOfRange | BadFunctionCall

text \<open>\<^verbatim>\<open>v[i]\<close> on a \<^verbatim>\<open>std::vector\<close> with an \<^verbatim>\<open>int\<close> index: no bounds check.\<close>

definition vec_at :: "'a list \<Rightarrow> int \<Rightarrow> error + 'a" where
  "vec_at xs i =
     (if 0 \<le> i \<and> i < int (length xs) then Inr (xs ! nat i) else Inl UndefinedBehaviour)"

text \<open>A throw or an undefined step ends the computation: the rest is not run.\<close>

definition bind_err :: "error + 'a \<Rightarrow> ('a \<Rightarrow> error + 'b) \<Rightarrow> error + 'b" where
  "bind_err m f = (case m of Inl e \<Rightarrow> Inl e | Inr x \<Rightarrow> f x)"

text \<open>
  Conversions of C++: to \<^verbatim>\<open>int\<close> (32 bits, two's complement) and to \<^verbatim>\<open>size_t\<close>
  (64 bits, unsigned). \<^verbatim>\<open>a / b\<close> on \<^verbatim>\<open>int\<close> truncates towards zero; on \<^verbatim>\<open>size_t\<close>
  it is \<open>div\<close> on the non-negative representatives.
\<close>

definition to_int :: "int \<Rightarrow> int" where
  "to_int k = (k + 2 ^ 31) mod 2 ^ 32 - 2 ^ 31"

definition to_size_t :: "int \<Rightarrow> int" where
  "to_size_t k = k mod 2 ^ 64"

definition int_div :: "int \<Rightarrow> int \<Rightarrow> int" where
  "int_div a b = sgn a * sgn b * (\<bar>a\<bar> div \<bar>b\<bar>)"

text \<open>
  A value of the C++ type \<^verbatim>\<open>int\<close> that is a parameter of a function: a 32-bit word, read
  with \<open>sint\<close>.
\<close>

type_synonym c_int = "32 word"

definition int_range :: "int \<Rightarrow> bool" where
  "int_range k = (- (2 ^ 31) \<le> k \<and> k < 2 ^ 31)"

section \<open>The terminal library\<close>

text \<open>
  ncurses is outside the repository. What the program does with it is recorded as the list
  of the calls that had an effect on a window, in the order they were made.
  \<open>Mvwprintw row col text\<close> is a \<^verbatim>\<open>mvwprintw\<close> whose cursor move succeeded: \<open>text\<close>, the
  output of the format, was written to the window from \<open>(row, col)\<close> on.
\<close>

datatype draw =
    Box
  | Wattron_reverse
  | Wattroff_reverse
  | Mvwprintw int int string
  | Wnoutrefresh
  | Wclear

text \<open>
  A \<^verbatim>\<open>WINDOW*\<close>. \<open>Uninitialised\<close> is the member \<^verbatim>\<open>_win\<close> that \<^verbatim>\<open>Window() {}\<close> leaves
  without a value: any use of it is undefined. \<open>Null\<close> is the null pointer that \<^verbatim>\<open>newwin\<close>
  returns when it fails: every ncurses call on it returns \<^verbatim>\<open>ERR\<close> and does nothing.
  \<open>Surface l c y x\<close> is a window of \<open>l\<close> lines and \<open>c\<close> columns whose top left corner
  is at \<open>(y, x)\<close>: the extents that \<^verbatim>\<open>getmaxy\<close>, \<^verbatim>\<open>getmaxx\<close>, \<^verbatim>\<open>getbegy\<close> and
  \<^verbatim>\<open>getbegx\<close> report.
\<close>

datatype handle = Uninitialised | Null | Surface int int int int

type_synonym extents = "int \<times> int \<times> int \<times> int"

definition surface_of :: "extents \<Rightarrow> handle" where
  "surface_of e = (case e of (l, c, y, x) \<Rightarrow> Surface l c y x)"

text \<open>
  What \<^verbatim>\<open>newwin\<close>, \<^verbatim>\<open>mvwin\<close> and \<^verbatim>\<open>wresize\<close> make of their arguments depends on the
  terminal and is decided by the library: the three functions are parameters of the
  model. \<open>nc_newwin\<close> gives the extents of the new window, or \<open>None\<close> for the null
  pointer; \<open>nc_mvwin\<close> and \<open>nc_wresize\<close> give the extents of an existing window after
  the call (the same extents when the call is refused: the program ignores the result).
\<close>

record 'e ncurses =
  nc_newwin :: "int \<Rightarrow> int \<Rightarrow> int \<Rightarrow> int \<Rightarrow> 'e \<Rightarrow> extents option"
  nc_mvwin :: "extents \<Rightarrow> int \<Rightarrow> int \<Rightarrow> 'e \<Rightarrow> extents"
  nc_wresize :: "extents \<Rightarrow> int \<Rightarrow> int \<Rightarrow> 'e \<Rightarrow> extents"

definition getmaxy :: "handle \<Rightarrow> error + int" where
  "getmaxy h =
     (case h of Uninitialised \<Rightarrow> Inl UndefinedBehaviour | Null \<Rightarrow> Inr (- 1)
      | Surface l c y x \<Rightarrow> Inr l)"

definition getmaxx :: "handle \<Rightarrow> error + int" where
  "getmaxx h =
     (case h of Uninitialised \<Rightarrow> Inl UndefinedBehaviour | Null \<Rightarrow> Inr (- 1)
      | Surface l c y x \<Rightarrow> Inr c)"

text \<open>A sequence of ncurses calls on the window \<open>h\<close> that cannot fail on a window.\<close>

definition on_win :: "handle \<Rightarrow> draw list \<Rightarrow> error + draw list" where
  "on_win h ds =
     (case h of Uninitialised \<Rightarrow> Inl UndefinedBehaviour | Null \<Rightarrow> Inr []
      | Surface l c y x \<Rightarrow> Inr ds)"

text \<open>A call that changes the extents of the window \<open>h\<close>.\<close>

definition win_update :: "handle \<Rightarrow> (extents \<Rightarrow> extents) \<Rightarrow> error + handle" where
  "win_update h f =
     (case h of Uninitialised \<Rightarrow> Inl UndefinedBehaviour | Null \<Rightarrow> Inr Null
      | Surface l c y x \<Rightarrow> Inr (surface_of (f (l, c, y, x))))"

text \<open>\<^verbatim>\<open>s.c_str()\<close> read as a C string: the characters before the first NUL.\<close>

definition c_str :: "string \<Rightarrow> string" where
  "c_str s = takeWhile (\<lambda>c. c \<noteq> CHR 0x00) s"

text \<open>
  The output of a \<^verbatim>\<open>printf\<close> format that is given no argument. An ordinary character is
  copied and \<^verbatim>\<open>%%\<close> writes one \<^verbatim>\<open>%\<close>. Any other \<^verbatim>\<open>%\<close> starts a conversion that reads
  an argument that was not passed, or is not a conversion at all: both are undefined.
\<close>

fun printf_noargs :: "string \<Rightarrow> error + string" where
  "printf_noargs [] = Inr []"
| "printf_noargs [c] = (if c = CHR ''%'' then Inl UndefinedBehaviour else Inr [c])"
| "printf_noargs (c # d # cs) =
     (if c = CHR ''%''
      then (if d = CHR ''%''
            then bind_err (printf_noargs cs) (\<lambda>out. Inr (CHR ''%'' # out))
            else Inl UndefinedBehaviour)
      else bind_err (printf_noargs (d # cs)) (\<lambda>out. Inr (c # out)))"

text \<open>
  \<^verbatim>\<open>mvwprintw(win, y, x, fmt)\<close> with no further argument. The cursor is moved first, which
  fails on the null window and at a position outside the window; only after a successful
  move is the format processed and its output written.
\<close>

definition mvwprintw :: "handle \<Rightarrow> int \<Rightarrow> int \<Rightarrow> string \<Rightarrow> error + draw list" where
  "mvwprintw h y x fmt =
     (case h of
        Uninitialised \<Rightarrow> Inl UndefinedBehaviour
      | Null \<Rightarrow> Inr []
      | Surface l c by bx \<Rightarrow>
          (if 0 \<le> y \<and> y < l \<and> 0 \<le> x \<and> x < c
           then bind_err (printf_noargs (c_str fmt)) (\<lambda>out. Inr [Mvwprintw y x out])
           else Inr []))"

section \<open>\<^verbatim>\<open>class Item\<close>: one cell\<close>

text \<open>
  \<open>'e\<close> is the state a \<^verbatim>\<open>std::function\<close> closure reads when it is called (the terminal's
  size, other windows' geometry). \<open>it_dynValue = None\<close> is the empty \<^verbatim>\<open>std::function\<close>
  of a default-constructed \<^verbatim>\<open>Item\<close>.
\<close>

record 'e Item =
  it_value :: string
  it_dynValue :: "('e \<Rightarrow> string) option"
  it_dynamic :: bool
  it_enabled :: bool

definition Item_default :: "'e Item" where
  "Item_default =
     \<lparr>it_value = [], it_dynValue = None, it_dynamic = False, it_enabled = False\<rparr>"

text \<open>\<^verbatim>\<open>std::string value() const\<close>\<close>

definition Item_value :: "'e Item \<Rightarrow> 'e \<Rightarrow> error + string" where
  "Item_value it env =
     (if it_dynamic it
      then (case it_dynValue it of None \<Rightarrow> Inl BadFunctionCall | Some f \<Rightarrow> Inr (f env))
      else Inr (it_value it))"

definition Item_enable :: "'e Item \<Rightarrow> 'e Item" where
  "Item_enable it = it\<lparr>it_enabled := True\<rparr>"

definition Item_disable :: "'e Item \<Rightarrow> 'e Item" where
  "Item_disable it = it\<lparr>it_enabled := False\<rparr>"

text \<open>\<^verbatim>\<open>void value(std::string v)\<close>\<close>

definition Item_value_string :: "string \<Rightarrow> 'e Item \<Rightarrow> 'e Item" where
  "Item_value_string v it = Item_enable (it\<lparr>it_value := v, it_dynamic := False\<rparr>)"

text \<open>\<^verbatim>\<open>void value(std::function<std::string()> func)\<close>, for a callable \<open>func\<close>\<close>

definition Item_value_func :: "('e \<Rightarrow> string) \<Rightarrow> 'e Item \<Rightarrow> 'e Item" where
  "Item_value_func func it =
     Item_enable (it\<lparr>it_dynValue := Some func, it_dynamic := True\<rparr>)"

text \<open>
  \<^verbatim>\<open>void print(WINDOW* win, int row, int col, int width, int height = 1)\<close>: nothing for
  a disabled cell. Otherwise \<^verbatim>\<open>length\<close> is the size of \<^verbatim>\<open>value()\<close> converted to
  \<^verbatim>\<open>int\<close>, \<^verbatim>\<open>x\<close> is \<^verbatim>\<open>(width - length) / 2\<close> in \<^verbatim>\<open>int\<close> arithmetic (an overflow of
  the subtraction is undefined), and \<^verbatim>\<open>value().c_str()\<close> is passed to \<^verbatim>\<open>mvwprintw\<close> as
  its format. \<open>col\<close> is not used by the source.
\<close>

definition Item_print ::
  "'e Item \<Rightarrow> handle \<Rightarrow> c_int \<Rightarrow> c_int \<Rightarrow> c_int \<Rightarrow> 'e \<Rightarrow> error + draw list" where
  "Item_print it win row col width env =
     (if \<not> it_enabled it then Inr []
      else
        bind_err (Item_value it env) (\<lambda>v.
          (let len = to_int (int (length v));
               d = sint width - len
           in if \<not> int_range d then Inl UndefinedBehaviour
              else bind_err (Item_value it env) (\<lambda>v'.
                     mvwprintw win (sint row) (int_div d 2) v'))))"

section \<open>\<^verbatim>\<open>class Content\<close>: the grid of cells\<close>

record 'e Content =
  ct_rows :: int
  ct_cols :: int
  ct_rptr :: int
  ct_cptr :: int
  ct_content :: "'e Item list list"

definition Content_default :: "'e Content" where
  "Content_default =
     \<lparr>ct_rows = - 1, ct_cols = 1, ct_rptr = 0, ct_cptr = 0, ct_content = []\<rparr>"

definition Content_size :: "'e Content \<Rightarrow> int list" where
  "Content_size c = [ct_rows c, ct_cols c]"

text \<open>
  \<^verbatim>\<open>void allocateNew()\<close>: a first row if there is none, a first cell if the row at
  \<^verbatim>\<open>_rptr\<close> is empty.
\<close>

definition Content_allocateNew :: "'e Content \<Rightarrow> error + 'e Content" where
  "Content_allocateNew c =
     (let c1 = (if ct_content c = [] then c\<lparr>ct_content := [[]]\<rparr> else c)
      in case vec_at (ct_content c1) (ct_rptr c1) of
           Inl e \<Rightarrow> Inl e
         | Inr r \<Rightarrow>
             (if r = []
              then Inr (c1\<lparr>ct_content := (ct_content c1)[nat (ct_rptr c1) := [Item_default]]\<rparr>)
              else Inr c1))"

text \<open>Both \<^verbatim>\<open>add\<close> overloads drop their argument and call \<^verbatim>\<open>allocateNew\<close>.\<close>

definition Content_add_string :: "string \<Rightarrow> 'e Content \<Rightarrow> error + 'e Content" where
  "Content_add_string v c = Content_allocateNew c"

definition Content_add_func :: "('e \<Rightarrow> string) \<Rightarrow> 'e Content \<Rightarrow> error + 'e Content" where
  "Content_add_func func c = Content_allocateNew c"

text \<open>
  \<^verbatim>\<open>replace(row, col, v)\<close> is \<^verbatim>\<open>_content[row][col].value(v)\<close>: two unchecked
  subscripts, then the cell's setter. \<open>Content_replace\<close> is the shared body, \<open>setter\<close> the
  setter of the overload.
\<close>

definition Content_replace ::
  "int \<Rightarrow> int \<Rightarrow> ('e Item \<Rightarrow> 'e Item) \<Rightarrow> 'e Content \<Rightarrow> error + 'e Content" where
  "Content_replace row col setter c =
     (case vec_at (ct_content c) row of
        Inl e \<Rightarrow> Inl e
      | Inr r \<Rightarrow>
          (case vec_at r col of
             Inl e \<Rightarrow> Inl e
           | Inr it \<Rightarrow>
               Inr (c\<lparr>ct_content := (ct_content c)[nat row := r[nat col := setter it]]\<rparr>)))"

definition Content_replace_string ::
  "int \<Rightarrow> int \<Rightarrow> string \<Rightarrow> 'e Content \<Rightarrow> error + 'e Content" where
  "Content_replace_string row col v c = Content_replace row col (Item_value_string v) c"

definition Content_replace_func ::
  "int \<Rightarrow> int \<Rightarrow> ('e \<Rightarrow> string) \<Rightarrow> 'e Content \<Rightarrow> error + 'e Content" where
  "Content_replace_func row col func c = Content_replace row col (Item_value_func func) c"

text \<open>
  \<^verbatim>\<open>void print(WINDOW* win, std::vector<int> coords)\<close> reads \<^verbatim>\<open>coords[0..3]\<close> into
  locals and returns: it makes no call on the window and prints no cell.
\<close>

definition Content_print :: "'e Content \<Rightarrow> int list \<Rightarrow> error + draw list" where
  "Content_print c coords =
     bind_err (vec_at coords 0) (\<lambda>h.
     bind_err (vec_at coords 1) (\<lambda>w.
     bind_err (vec_at coords 2) (\<lambda>y.
     bind_err (vec_at coords 3) (\<lambda>x. Inr []))))"

section \<open>\<^verbatim>\<open>class Window\<close>\<close>

datatype WinOpt = BOXED | NOBOXED | TITLED | NOTITLED | LALIGNED | CALIGNED | RALIGNED

record 'e Window =
  w_getDims :: "('e \<Rightarrow> int list) option"
  w_content :: "'e Content"
  w_win :: handle
  w_name :: string
  w_title_align :: string
  w_boxed :: bool
  w_selected :: bool
  w_titled :: bool

text \<open>\<^verbatim>\<open>Window() {}\<close>: the default member initialisers, an empty \<^verbatim>\<open>_getDims\<close>.\<close>

definition Window_default :: "'e Window" where
  "Window_default =
     \<lparr>w_getDims = None, w_content = Content_default, w_win = Uninitialised, w_name = [],
      w_title_align = ''left'', w_boxed = True, w_selected = False, w_titled = True\<rparr>"

definition Window_getDims :: "'e Window \<Rightarrow> 'e \<Rightarrow> error + int list" where
  "Window_getDims w env =
     (case w_getDims w of None \<Rightarrow> Inl BadFunctionCall | Some f \<Rightarrow> Inr (f env))"

definition Window_getCoords :: "'e Window \<Rightarrow> error + int list" where
  "Window_getCoords w =
     bind_err (getmaxy (w_win w)) (\<lambda>h.
     bind_err (getmaxx (w_win w)) (\<lambda>wd.
       Inr (if w_boxed w then [h - 2, wd - 2, 0 + 1, 0 + 1] else [h, wd, 0, 0])))"

definition Window_drawBox :: "'e Window \<Rightarrow> error + draw list" where
  "Window_drawBox w = (if \<not> w_boxed w then Inr [] else on_win (w_win w) [Box])"

text \<open>
  \<^verbatim>\<open>void putTitle()\<close>. \<^verbatim>\<open>title.size()\<close> is a \<^verbatim>\<open>size_t\<close>, so both subtractions are
  done in \<^verbatim>\<open>size_t\<close> (they wrap below zero), the division by 2 is unsigned, and the result
  is converted to the \<^verbatim>\<open>int startx\<close>. The three tests on \<^verbatim>\<open>_title_align\<close> are
  independent \<^verbatim>\<open>if\<close>s, run in this order. \<^verbatim>\<open>title.c_str()\<close> is passed to
  \<^verbatim>\<open>mvwprintw\<close> as its format.
\<close>

definition Window_putTitle :: "'e Window \<Rightarrow> error + draw list" where
  "Window_putTitle w =
     (let startx0 = 0;
          title = '' '' @ w_name w @ '' '';
          size = int (length title)
      in if \<not> w_titled w then Inr []
         else
           bind_err (if w_title_align w = ''left'' then Inr 2 else Inr startx0) (\<lambda>startx1.
           bind_err (if w_title_align w = ''center''
                     then bind_err (getmaxx (w_win w)) (\<lambda>mx.
                            Inr (to_int (to_size_t (to_size_t mx - size) div 2)))
                     else Inr startx1) (\<lambda>startx2.
           bind_err (if w_title_align w = ''right''
                     then bind_err (getmaxx (w_win w)) (\<lambda>mx.
                            Inr (to_int (to_size_t (to_size_t (to_size_t mx - size) - 2))))
                     else Inr startx2) (\<lambda>startx.
           bind_err (on_win (w_win w) (if w_selected w then [Wattron_reverse] else [])) (\<lambda>a.
           bind_err (mvwprintw (w_win w) 0 startx title) (\<lambda>p.
           bind_err (on_win (w_win w) (if w_selected w then [Wattroff_reverse] else [])) (\<lambda>b.
             Inr (a @ p @ b))))))))"

definition Window_refresh :: "'e Window \<Rightarrow> error + draw list" where
  "Window_refresh w = on_win (w_win w) [Wnoutrefresh]"

text \<open>\<^verbatim>\<open>void draw()\<close>: the box, the title, the content, the refresh.\<close>

definition Window_draw :: "'e Window \<Rightarrow> error + draw list" where
  "Window_draw w =
     bind_err (Window_drawBox w) (\<lambda>b.
     bind_err (Window_putTitle w) (\<lambda>t.
     bind_err (Window_getCoords w) (\<lambda>coords.
     bind_err (Content_print (w_content w) coords) (\<lambda>c.
     bind_err (Window_refresh w) (\<lambda>r. Inr (b @ t @ c @ r))))))"

text \<open>
  The operations that change a window return the changed window; what they draw is
  \<open>Window_draw\<close> of it.
\<close>

definition Window_markSelected :: "'e Window \<Rightarrow> error + 'e Window" where
  "Window_markSelected w =
     (let w1 = w\<lparr>w_selected := True\<rparr>
      in bind_err (Window_draw w1) (\<lambda>d.
         bind_err (on_win (w_win w1) [Wnoutrefresh]) (\<lambda>r. Inr w1)))"

definition Window_unmarkSelected :: "'e Window \<Rightarrow> error + 'e Window" where
  "Window_unmarkSelected w =
     (let w1 = w\<lparr>w_selected := False\<rparr>
      in bind_err (Window_draw w1) (\<lambda>d. Inr w1))"

text \<open>
  \<^verbatim>\<open>void resize()\<close>: \<^verbatim>\<open>getDims()\<close>, \<^verbatim>\<open>wclear\<close>, \<^verbatim>\<open>mvwin(_win, d[2], d[3])\<close>,
  \<^verbatim>\<open>wresize(_win, d[0], d[1])\<close>, \<^verbatim>\<open>draw()\<close>.
\<close>

definition Window_resize :: "'e ncurses \<Rightarrow> 'e Window \<Rightarrow> 'e \<Rightarrow> error + 'e Window" where
  "Window_resize nc w env =
     bind_err (Window_getDims w env) (\<lambda>d.
     bind_err (on_win (w_win w) [Wclear]) (\<lambda>cleared.
     bind_err (vec_at d 2) (\<lambda>y.
     bind_err (vec_at d 3) (\<lambda>x.
     bind_err (win_update (w_win w) (\<lambda>e. nc_mvwin nc e y x env)) (\<lambda>moved.
     bind_err (vec_at d 0) (\<lambda>h.
     bind_err (vec_at d 1) (\<lambda>wd.
     bind_err (win_update moved (\<lambda>e. nc_wresize nc e h wd env)) (\<lambda>resized.
       (let w1 = w\<lparr>w_win := resized\<rparr>
        in bind_err (Window_draw w1) (\<lambda>d. Inr w1))))))))))"

text \<open>\<^verbatim>\<open>Window(std::string name, std::function<std::vector<int>()> func)\<close>\<close>

definition Window_new ::
  "'e ncurses \<Rightarrow> string \<Rightarrow> ('e \<Rightarrow> int list) \<Rightarrow> 'e \<Rightarrow> error + 'e Window" where
  "Window_new nc name func env =
     (let w0 = Window_default\<lparr>w_getDims := Some func, w_name := name\<rparr>
      in bind_err (Window_getDims w0 env) (\<lambda>d.
         bind_err (vec_at d 0) (\<lambda>h.
         bind_err (vec_at d 1) (\<lambda>wd.
         bind_err (vec_at d 2) (\<lambda>y.
         bind_err (vec_at d 3) (\<lambda>x.
           (let w1 = w0\<lparr>w_win := (case nc_newwin nc h wd y x env of
                                      None \<Rightarrow> Null
                                    | Some e \<Rightarrow> surface_of e)\<rparr>
            in bind_err (Window_draw w1) (\<lambda>d. Inr w1))))))))"

definition Window_setOption ::
  "'e ncurses \<Rightarrow> WinOpt \<Rightarrow> 'e Window \<Rightarrow> 'e \<Rightarrow> error + 'e Window" where
  "Window_setOption nc opt w env =
     Window_resize nc
       (case opt of
          BOXED \<Rightarrow> w\<lparr>w_boxed := True\<rparr>
        | NOBOXED \<Rightarrow> w\<lparr>w_boxed := False\<rparr>
        | TITLED \<Rightarrow> w\<lparr>w_titled := True\<rparr>
        | NOTITLED \<Rightarrow> w\<lparr>w_titled := False\<rparr>
        | LALIGNED \<Rightarrow> w\<lparr>w_title_align := ''left''\<rparr>
        | CALIGNED \<Rightarrow> w\<lparr>w_title_align := ''center''\<rparr>
        | RALIGNED \<Rightarrow> w\<lparr>w_title_align := ''right''\<rparr>)
       env"

section \<open>\<^verbatim>\<open>class Windows\<close>: the registry\<close>

text \<open>
  \<^verbatim>\<open>_windows\<close> is an \<^verbatim>\<open>unordered_map\<close>: an association list read with \<open>map_of\<close> and
  written with \<open>AList.update\<close> (which overwrites the entry of a key that is present and
  adds one otherwise). \<^verbatim>\<open>_windowsOrder\<close> is the focus order.
\<close>

record 'e Windows =
  ws_windows :: "(string \<times> 'e Window) list"
  ws_windowsOrder :: "string list"

definition Windows_default :: "'e Windows" where
  "Windows_default = \<lparr>ws_windows = [], ws_windowsOrder = []\<rparr>"

text \<open>
  \<^verbatim>\<open>Window& operator[](std::string name) { return _windows[name]; }\<close>: the map's own
  \<^verbatim>\<open>operator[]\<close>, which default-constructs the entry of an absent key. The result is the
  window referred to and the registry after the call.
\<close>

definition Windows_index :: "string \<Rightarrow> 'e Windows \<Rightarrow> 'e Window \<times> 'e Windows" where
  "Windows_index name ws =
     (case map_of (ws_windows ws) name of
        Some w \<Rightarrow> (w, ws)
      | None \<Rightarrow> (Window_default, ws\<lparr>ws_windows := AList.update name Window_default (ws_windows ws)\<rparr>))"

text \<open>\<^verbatim>\<open>const Window& operator[](std::string name) const { return _windows.at(name); }\<close>\<close>

definition Windows_at :: "string \<Rightarrow> 'e Windows \<Rightarrow> error + 'e Window" where
  "Windows_at name ws =
     (case map_of (ws_windows ws) name of None \<Rightarrow> Inl OutOfRange | Some w \<Rightarrow> Inr w)"

text \<open>
  \<^verbatim>\<open>_windows[name].op()\<close> for a member function \<open>op\<close> that changes the window: the entry
  is looked up (or created), changed in place.
\<close>

definition Windows_apply ::
  "string \<Rightarrow> ('e Window \<Rightarrow> error + 'e Window) \<Rightarrow> 'e Windows \<Rightarrow> error + 'e Windows" where
  "Windows_apply name op ws =
     (let (w, ws1) = Windows_index name ws
      in bind_err (op w) (\<lambda>w'.
           Inr (ws1\<lparr>ws_windows := AList.update name w' (ws_windows ws1)\<rparr>)))"

definition windowsOrder_set :: "string list \<Rightarrow> 'e Windows \<Rightarrow> 'e Windows" where
  "windowsOrder_set order ws = ws\<lparr>ws_windowsOrder := order\<rparr>"

definition windowsOrder_push :: "string \<Rightarrow> 'e Windows \<Rightarrow> 'e Windows" where
  "windowsOrder_push name ws = ws\<lparr>ws_windowsOrder := ws_windowsOrder ws @ [name]\<rparr>"

text \<open>The loop of \<^verbatim>\<open>updateMarkedWindow\<close> over the names at positions 1, 2, ...\<close>

primrec unmarkEach :: "string list \<Rightarrow> 'e Windows \<Rightarrow> error + 'e Windows" where
  "unmarkEach [] ws = Inr ws"
| "unmarkEach (n # ns) ws =
     bind_err (Windows_apply n Window_unmarkSelected ws) (\<lambda>ws'. unmarkEach ns ws')"

definition updateMarkedWindow :: "'e Windows \<Rightarrow> error + 'e Windows" where
  "updateMarkedWindow ws =
     (if length (ws_windowsOrder ws) = 0 then Inr ws
      else
        bind_err (vec_at (ws_windowsOrder ws) 0) (\<lambda>first.
        bind_err (Windows_apply first Window_markSelected ws) (\<lambda>ws1.
          unmarkEach (drop 1 (ws_windowsOrder ws1)) ws1)))"

text \<open>The loop of \<^verbatim>\<open>resizeAllWindows\<close> over the entries of the map.\<close>

primrec resizeEach ::
  "'e ncurses \<Rightarrow> (string \<times> 'e Window) list \<Rightarrow> 'e \<Rightarrow> error + (string \<times> 'e Window) list" where
  "resizeEach nc [] env = Inr []"
| "resizeEach nc (p # ps) env =
     bind_err (Window_resize nc (snd p) env) (\<lambda>w.
     bind_err (resizeEach nc ps env) (\<lambda>ps'. Inr ((fst p, w) # ps')))"

definition resizeAllWindows :: "'e ncurses \<Rightarrow> 'e \<Rightarrow> 'e Windows \<Rightarrow> error + 'e Windows" where
  "resizeAllWindows nc env ws =
     bind_err (resizeEach nc (ws_windows ws) env) (\<lambda>ps. Inr (ws\<lparr>ws_windows := ps\<rparr>))"

text \<open>
  \<^verbatim>\<open>std::rotate(first, first + m, last)\<close> over the whole of \<open>xs\<close>. The standard requires
  \<^verbatim>\<open>[first, first + m)\<close> and \<^verbatim>\<open>[first + m, last)\<close> to be valid ranges: \<open>first + m\<close> must
  not pass \<open>last\<close>.
\<close>

definition std_rotate :: "'a list \<Rightarrow> nat \<Rightarrow> error + 'a list" where
  "std_rotate xs m =
     (if m \<le> length xs then Inr (drop m xs @ take m xs) else Inl UndefinedBehaviour)"

text \<open>\<^verbatim>\<open>std::rotate(rbegin(), rbegin() + 1, rend())\<close>: the same on the reversed vector.\<close>

definition rotateRightSelectedWindow :: "'e Windows \<Rightarrow> error + 'e Windows" where
  "rotateRightSelectedWindow ws =
     bind_err (std_rotate (rev (ws_windowsOrder ws)) 1) (\<lambda>r.
       Inr (ws\<lparr>ws_windowsOrder := rev r\<rparr>))"

text \<open>\<^verbatim>\<open>std::rotate(begin(), begin() + 1, end())\<close>\<close>

definition rotateLeftSelectedWindow :: "'e Windows \<Rightarrow> error + 'e Windows" where
  "rotateLeftSelectedWindow ws =
     bind_err (std_rotate (ws_windowsOrder ws) 1) (\<lambda>r.
       Inr (ws\<lparr>ws_windowsOrder := r\<rparr>))"

definition rotateSelectedWindow :: "string \<Rightarrow> 'e Windows \<Rightarrow> error + 'e Windows" where
  "rotateSelectedWindow direction ws =
     bind_err (if direction = ''right'' then rotateRightSelectedWindow ws else Inr ws) (\<lambda>ws1.
     bind_err (if direction = ''left'' then rotateLeftSelectedWindow ws1 else Inr ws1) (\<lambda>ws2.
       updateMarkedWindow ws2))"

text \<open>\<^verbatim>\<open>void notify(std::string message)\<close>: three independent \<^verbatim>\<open>if\<close>s.\<close>

definition notify :: "'e ncurses \<Rightarrow> string \<Rightarrow> 'e \<Rightarrow> 'e Windows \<Rightarrow> error + 'e Windows" where
  "notify nc message env ws =
     bind_err (if message = ''resize'' then resizeAllWindows nc env ws else Inr ws) (\<lambda>ws1.
     bind_err (if message = ''rotate'' then rotateSelectedWindow ''right'' ws1 else Inr ws1) (\<lambda>ws2.
       (if message = ''rotate-back'' then rotateSelectedWindow ''left'' ws2 else Inr ws2)))"

text \<open>\<open>n\<close> notifications of the same message, one after the other.\<close>

primrec notify_n ::
  "'e ncurses \<Rightarrow> nat \<Rightarrow> string \<Rightarrow> 'e \<Rightarrow> 'e Windows \<Rightarrow> error + 'e Windows" where
  "notify_n nc 0 message env ws = Inr ws"
| "notify_n nc (Suc n) message env ws =
     bind_err (notify nc message env ws) (\<lambda>ws'. notify_n nc n message env ws')"

text \<open>
  A sequence of notifications, one after the other, each with the state of the terminal
  at the time it is delivered.
\<close>

primrec notify_each ::
  "'e ncurses \<Rightarrow> (string \<times> 'e) list \<Rightarrow> 'e Windows \<Rightarrow> error + 'e Windows" where
  "notify_each nc [] ws = Inr ws"
| "notify_each nc (event # events) ws =
     bind_err (notify nc (fst event) (snd event) ws) (\<lambda>ws'. notify_each nc events ws')"

section \<open>\<^verbatim>\<open>class App\<close>\<close>

text \<open>The \<^verbatim>\<open>Curses\<close> member holds no data; the state of an \<^verbatim>\<open>App\<close> is its registry.\<close>

record 'e App =
  app_windows :: "'e Windows"

definition App_default :: "'e App" where
  "App_default = \<lparr>app_windows = Windows_default\<rparr>"

text \<open>The fold \<^verbatim>\<open>(..., windows()[name].setOption(opts))\<close>, left to right.\<close>

primrec setOptions ::
  "'e ncurses \<Rightarrow> string \<Rightarrow> WinOpt list \<Rightarrow> 'e \<Rightarrow> 'e Windows \<Rightarrow> error + 'e Windows" where
  "setOptions nc name [] env ws = Inr ws"
| "setOptions nc name (opt # opts) env ws =
     bind_err (Windows_apply name (\<lambda>w. Window_setOption nc opt w env) ws) (\<lambda>ws'.
       setOptions nc name opts env ws')"

text \<open>
  \<^verbatim>\<open>void addWindow(std::string name, std::function<std::vector<int>()> func, WinOpts... opts)\<close>:
  the new window is built, assigned to \<^verbatim>\<open>windows()[name]\<close>, given its options, and its
  name is pushed onto the focus order.
\<close>

definition App_addWindow ::
  "'e ncurses \<Rightarrow> string \<Rightarrow> ('e \<Rightarrow> int list) \<Rightarrow> WinOpt list \<Rightarrow> 'e \<Rightarrow> 'e App \<Rightarrow>
     error + 'e App" where
  "App_addWindow nc name func opts env app =
     bind_err (Window_new nc name func env) (\<lambda>w.
     bind_err (Windows_apply name (\<lambda>old. Inr w) (app_windows app)) (\<lambda>ws1.
     bind_err (setOptions nc name opts env ws1) (\<lambda>ws2.
       Inr (app\<lparr>app_windows := windowsOrder_push name ws2\<rparr>))))"

definition App_setWindowsOrder :: "string list \<Rightarrow> 'e App \<Rightarrow> 'e App" where
  "App_setWindowsOrder order app = app\<lparr>app_windows := windowsOrder_set order (app_windows app)\<rparr>"

text \<open>\<^verbatim>\<open>Window& window(std::string name) { return windows()[name]; }\<close>\<close>

definition App_window :: "string \<Rightarrow> 'e App \<Rightarrow> 'e Window \<times> 'e App" where
  "App_window name app =
     (let (w, ws) = Windows_index name (app_windows app) in (w, app\<lparr>app_windows := ws\<rparr>))"

text \<open>The \<^verbatim>\<open>_selected\<close> flag of the window stored under a name, if there is one.\<close>

definition selected_of :: "'e Windows \<Rightarrow> string \<Rightarrow> bool option" where
  "selected_of ws name = map_option w_selected (map_of (ws_windows ws) name)"

section \<open>Observations and concrete inputs\<close>

text \<open>
  A window can be drawn when its \<^verbatim>\<open>_win\<close> has been initialised (by the two-argument
  constructor) and, if it is titled, its name holds no \<^verbatim>\<open>%\<close>, so that the title is a
  format without conversions. A name is drawable in a registry when a window that can be
  drawn is stored under it.
\<close>

definition can_draw :: "'e Window \<Rightarrow> bool" where
  "can_draw w = (w_win w \<noteq> Uninitialised \<and> (w_titled w \<longrightarrow> CHR ''%'' \<notin> set (w_name w)))"

definition drawable :: "'e Windows \<Rightarrow> string \<Rightarrow> bool" where
  "drawable ws name =
     (case map_of (ws_windows ws) name of None \<Rightarrow> False | Some w \<Rightarrow> can_draw w)"

text \<open>
  A window can be resized in a state of the terminal when it can be drawn and its
  geometry provider is set and returns its four extents in that state.
\<close>

definition resizable :: "'e \<Rightarrow> 'e Window \<Rightarrow> bool" where
  "resizable env w =
     (can_draw w \<and> (case w_getDims w of None \<Rightarrow> False | Some f \<Rightarrow> 4 \<le> length (f env)))"

text \<open>
  The entries of \<open>ws'\<close> are entries of \<open>ws\<close> up to their \<^verbatim>\<open>_selected\<close> flag.
\<close>

definition flags_only :: "'e Windows \<Rightarrow> 'e Windows \<Rightarrow> bool" where
  "flags_only ws ws' =
     (\<forall>p\<in>set (ws_windows ws'). \<exists>q\<in>set (ws_windows ws). \<exists>b.
        fst p = fst q \<and> snd p = (snd q)\<lparr>w_selected := b\<rparr>)"

text \<open>
  \<open>w'\<close> is \<open>w\<close> after a \<^verbatim>\<open>resize()\<close> that succeeded: only \<^verbatim>\<open>_win\<close> has changed, and it is
  initialised.
\<close>

definition resized :: "'e Window \<Rightarrow> 'e Window \<Rightarrow> bool" where
  "resized w w' = (\<exists>h. h \<noteq> Uninitialised \<and> w' = w\<lparr>w_win := h\<rparr>)"

text \<open>
  A terminal library for the concrete inputs, on a screen of 24 lines and 80 columns.
  A new window with a negative size or position is refused, a size of 0 stands for the
  rest of the screen, and the window must lie on the screen; a move that would leave the
  screen and a size that is not positive are refused.
\<close>

definition nc_plain :: "unit ncurses" where
  "nc_plain =
     \<lparr>nc_newwin = (\<lambda>l c y x u.
        (let l' = (if l = 0 then 24 - y else l); c' = (if c = 0 then 80 - x else c)
         in if 0 \<le> l \<and> 0 \<le> c \<and> 0 \<le> y \<and> 0 \<le> x \<and> 0 < l' \<and> 0 < c' \<and>
               y + l' \<le> 24 \<and> x + c' \<le> 80
            then Some (l', c', y, x) else None)),
      nc_mvwin = (\<lambda>e y x u. case e of (l, c, y0, x0) \<Rightarrow>
        if 0 \<le> y \<and> 0 \<le> x \<and> y + l \<le> 24 \<and> x + c \<le> 80 then (l, c, y, x)
        else (l, c, y0, x0)),
      nc_wresize = (\<lambda>e l c u. case e of (l0, c0, y, x) \<Rightarrow>
        if 0 < l \<and> 0 < c then (l, c, y, x) else (l0, c0, y, x))\<rparr>"

text \<open>An index \<open>(row, col)\<close> of a cell that exists in the grid.\<close>

definition valid_index :: "'e Content \<Rightarrow> int \<Rightarrow> int \<Rightarrow> bool" where
  "valid_index c row col =
     (0 \<le> row \<and> row < int (length (ct_content c)) \<and>
      0 \<le> col \<and> col < int (length (ct_content c ! nat row)))"

text \<open>A grid of one row and three columns of fresh cells.\<close>

definition grid3 :: "unit Content" where
  "grid3 = Content_default\<lparr>ct_content := [[Item_default, Item_default, Item_default]]\<rparr>"

text \<open>The grid after one \<^verbatim>\<open>add\<close> on a new \<^verbatim>\<open>Content\<close>.\<close>

definition grid1 :: "error + unit Content" where
  "grid1 = Content_add_string ''a'' Content_default"


text \<open>A bordered, titled, centre-aligned window of width 20 named \<open>Stack\<close>.\<close>

definition stack_dims :: "unit \<Rightarrow> int list" where
  "stack_dims u = [10, 20, 1, 0]"

definition stack_window :: "unit Window" where
  "stack_window =
     Window_default\<lparr>w_getDims := Some stack_dims, w_name := ''Stack'',
       w_win := Surface 10 20 1 0, w_title_align := ''center''\<rparr>"

text \<open>The same window with width 4, narrower than its title.\<close>

definition narrow_dims :: "unit \<Rightarrow> int list" where
  "narrow_dims u = [10, 4, 1, 0]"

definition narrow_window :: "unit Window" where
  "narrow_window =
     Window_default\<lparr>w_getDims := Some narrow_dims, w_name := ''Stack'',
       w_win := Surface 10 4 1 0, w_title_align := ''center''\<rparr>"

text \<open>A geometry provider, and the window the constructor builds from it.\<close>

definition dims :: "unit \<Rightarrow> int list" where
  "dims u = [3, 20, 0, 0]"

definition win_of :: "string \<Rightarrow> unit Window" where
  "win_of name =
     Window_default\<lparr>w_getDims := Some dims, w_name := name, w_win := Surface 3 20 0 0\<rparr>"

text \<open>The registry after \<^verbatim>\<open>addWindow\<close> of \<open>A\<close>, \<open>B\<close> and \<open>C\<close>.\<close>

definition reg_ABC :: "unit Windows" where
  "reg_ABC =
     \<lparr>ws_windows = [(''A'', win_of ''A''), (''B'', win_of ''B''), (''C'', win_of ''C'')],
      ws_windowsOrder = [''A'', ''B'', ''C'']\<rparr>"

text \<open>The registry after \<^verbatim>\<open>addWindow\<close> of \<open>A\<close> and \<^verbatim>\<open>setWindowsOrder({"A", "A"})\<close>.\<close>

definition reg_AA :: "unit Windows" where
  "reg_AA = \<lparr>ws_windows = [(''A'', win_of ''A'')], ws_windowsOrder = [''A'', ''A'']\<rparr>"

text \<open>A registry with no window, after \<^verbatim>\<open>windowsOrder({"X"})\<close>.\<close>

definition reg_X :: "unit Windows" where
  "reg_X = windowsOrder_set [''X''] Windows_default"

section \<open>Basic facts\<close>

lemma bind_err_Inr [simp]: "bind_err (Inr x) f = f x"
  by (simp add: bind_err_def)

lemma bind_err_Inl [simp]: "bind_err (Inl e) f = Inl e"
  by (simp add: bind_err_def)

lemma bind_err_Inr_right [simp]: "bind_err m Inr = m"
  by (cases m) simp_all

lemma vec_at_in: "0 \<le> i \<Longrightarrow> i < int (length xs) \<Longrightarrow> vec_at xs i = Inr (xs ! nat i)"
  by (simp add: vec_at_def)

lemma vec_at_4:
  assumes "4 \<le> length d"
  shows "vec_at d 0 = Inr (d ! 0)" "vec_at d 1 = Inr (d ! 1)"
    "vec_at d 2 = Inr (d ! 2)" "vec_at d 3 = Inr (d ! 3)"
  using assms by (auto simp add: vec_at_def)

lemma map_update_same: "n < length xs \<Longrightarrow> (map f xs)[n := f (xs ! n)] = map f xs"
  by (simp add: list_eq_iff_nth_eq nth_list_update)

lemma Content_print_4: "Content_print c [h, w, y, x] = Inr []"
  by (simp add: Content_print_def vec_at_def)

subsection \<open>The terminal library\<close>

lemma on_win_Surface [simp]: "on_win (Surface l c y x) ds = Inr ds"
  by (simp add: on_win_def)

lemma on_win_Null [simp]: "on_win Null ds = Inr []"
  by (simp add: on_win_def)

lemma on_win_Uninitialised [simp]: "on_win Uninitialised ds = Inl UndefinedBehaviour"
  by (simp add: on_win_def)

lemma on_win_ok: "h \<noteq> Uninitialised \<Longrightarrow> \<exists>ds'. on_win h ds = Inr ds'"
  by (cases h) simp_all

lemma getmax_ok:
  assumes "h \<noteq> Uninitialised"
  shows "\<exists>k. getmaxy h = Inr k" and "\<exists>k. getmaxx h = Inr k"
  using assms by (cases h; simp add: getmaxy_def getmaxx_def)+

lemma win_update_ok:
  "h \<noteq> Uninitialised \<Longrightarrow> \<exists>h'. win_update h f = Inr h' \<and> h' \<noteq> Uninitialised"
  by (cases h) (simp_all add: win_update_def surface_of_def split: prod.splits)

text \<open>A format without \<^verbatim>\<open>%\<close> is written as it is.\<close>

lemma printf_noargs_plain: "CHR ''%'' \<notin> set s \<Longrightarrow> printf_noargs s = Inr s"
  by (induction s rule: printf_noargs.induct) auto

lemma c_str_subset: "set (c_str s) \<subseteq> set s"
  by (auto simp add: c_str_def dest: set_takeWhileD)


lemma mvwprintw_ok:
  assumes "h \<noteq> Uninitialised" and "CHR ''%'' \<notin> set fmt"
  shows "\<exists>p. mvwprintw h y x fmt = Inr p"
proof -
  from assms(2) c_str_subset [of fmt] have "CHR ''%'' \<notin> set (c_str fmt)" by blast
  then have "printf_noargs (c_str fmt) = Inr (c_str fmt)" by (rule printf_noargs_plain)
  with assms(1) show ?thesis by (cases h) (simp_all add: mvwprintw_def)
qed


subsection \<open>The conversions between \<^verbatim>\<open>int\<close> and \<^verbatim>\<open>size_t\<close>\<close>









section \<open>Cells\<close>

text \<open>
  C6, as the code has it. \<^verbatim>\<open>Item::value()\<close> never reads \<^verbatim>\<open>_enabled\<close>: it returns the
  stored string, or the producer's result for a dynamic cell, whether the cell is enabled
  or disabled, so a cell that was given a value and then disabled still returns that
  value. The empty string is returned by a cell that was never given a value. The flag
  is read by \<^verbatim>\<open>Item::print\<close> only, which prints nothing for a disabled cell.
\<close>

theorem Item_value_ignores_enabled:
  "Item_value (Item_value_string v it) env = Inr v \<and>
   Item_value (Item_value_func f it) env = Inr (f env) \<and>
   Item_value (Item_disable (Item_value_string v it)) env = Inr v \<and>
   Item_value (Item_disable (Item_value_func f it)) env = Inr (f env) \<and>
   Item_value (Item_disable it) env = Item_value it env \<and>
   Item_value Item_default env = Inr [] \<and>
   Item_print (Item_disable it) win row col width env = Inr []"
  by (simp add: Item_value_def Item_value_string_def Item_value_func_def Item_disable_def
        Item_enable_def Item_default_def Item_print_def)

text \<open>
  C6 as the specification states it fails: a cell given \<open>''x''\<close> and then disabled
  returns \<open>''x''\<close>, not the empty string.
\<close>

theorem Item_value_disabled_counterexample:
  "Item_value (Item_disable (Item_value_string ''x'' Item_default)) () = Inr ''x'' \<and>
   Item_value (Item_disable (Item_value_string ''x'' Item_default)) () \<noteq> Inr []"
  by (simp add: Item_value_def Item_value_string_def Item_disable_def Item_enable_def
        Item_default_def)

section \<open>The grid\<close>

lemma Content_replace_in:
  assumes "0 \<le> row" "row < int (length (ct_content c))"
    and "0 \<le> col" "col < int (length (ct_content c ! nat row))"
  shows "Content_replace row col setter c =
           Inr (c\<lparr>ct_content := (ct_content c)
                  [nat row := (ct_content c ! nat row)
                     [nat col := setter (ct_content c ! nat row ! nat col)]]\<rparr>)"
  using assms by (simp add: Content_replace_def vec_at_in)

lemma Content_replace_out:
  assumes "\<not> (0 \<le> row \<and> row < int (length (ct_content c)) \<and>
              0 \<le> col \<and> col < int (length (ct_content c ! nat row)))"
  shows "Content_replace row col setter c = Inl UndefinedBehaviour"
  using assms by (auto simp add: Content_replace_def vec_at_def)

text \<open>
  C5, as the code has it. \<^verbatim>\<open>Content::replace\<close> subscripts both vectors without a
  check. At an index of an existing cell it overwrites that cell in place: the grid keeps
  its shape and every other cell. At any other index the subscript is out of range, which
  is undefined behaviour; no \<open>OutOfRange\<close> error is raised.
\<close>

theorem Content_replace_unchecked:
  "(valid_index c row col \<longrightarrow>
      (\<exists>c'. Content_replace_string row col v c = Inr c' \<and>
            map length (ct_content c') = map length (ct_content c) \<and>
            (\<forall>i j. i < length (ct_content c) \<longrightarrow> j < length (ct_content c ! i) \<longrightarrow>
               ct_content c' ! i ! j =
                 (if i = nat row \<and> j = nat col
                  then Item_value_string v (ct_content c ! i ! j)
                  else ct_content c ! i ! j)))) \<and>
   (\<not> valid_index c row col \<longrightarrow>
      Content_replace_string row col v c = Inl UndefinedBehaviour \<and>
      Content_replace_func row col f c = Inl UndefinedBehaviour)"
proof (intro conjI impI)
  assume v: "valid_index c row col"
  let ?c' = "c\<lparr>ct_content := (ct_content c)
                  [nat row := (ct_content c ! nat row)
                     [nat col := Item_value_string v (ct_content c ! nat row ! nat col)]]\<rparr>"
  from v have eq: "Content_replace_string row col v c = Inr ?c'"
    unfolding valid_index_def Content_replace_string_def by (intro Content_replace_in) simp_all
  from v have r: "nat row < length (ct_content c)"
    unfolding valid_index_def by linarith
  have len: "map length (ct_content ?c') = map length (ct_content c)"
    using map_update_same [OF r, of length] by (simp add: map_update)
  have cells: "\<forall>i j. i < length (ct_content c) \<longrightarrow> j < length (ct_content c ! i) \<longrightarrow>
                 ct_content ?c' ! i ! j =
                   (if i = nat row \<and> j = nat col
                    then Item_value_string v (ct_content c ! i ! j)
                    else ct_content c ! i ! j)"
    using v unfolding valid_index_def by (auto simp add: nth_list_update)
  from eq len cells
  show "\<exists>c'. Content_replace_string row col v c = Inr c' \<and>
              map length (ct_content c') = map length (ct_content c) \<and>
              (\<forall>i j. i < length (ct_content c) \<longrightarrow> j < length (ct_content c ! i) \<longrightarrow>
                 ct_content c' ! i ! j =
                   (if i = nat row \<and> j = nat col
                    then Item_value_string v (ct_content c ! i ! j)
                    else ct_content c ! i ! j))"
    by blast
next
  assume "\<not> valid_index c row col"
  then show "Content_replace_string row col v c = Inl UndefinedBehaviour"
    unfolding valid_index_def Content_replace_string_def by (rule Content_replace_out)
next
  assume "\<not> valid_index c row col"
  then show "Content_replace_func row col f c = Inl UndefinedBehaviour"
    unfolding valid_index_def Content_replace_func_def by (rule Content_replace_out)
qed

text \<open>The grid of three columns at column 1, which exists, and at column 5, which does not.\<close>

theorem Content_replace_unchecked_witness:
  "valid_index grid3 0 1 \<and> \<not> valid_index grid3 0 5 \<and>
   (\<exists>c'. Content_replace_string 0 1 ''x'' grid3 = Inr c' \<and>
         map length (ct_content c') = [3] \<and>
         it_value (ct_content c' ! 0 ! 1) = ''x'' \<and>
         ct_content c' ! 0 ! 0 = Item_default \<and>
         ct_content c' ! 0 ! 2 = Item_default) \<and>
   Content_replace_string 0 5 ''x'' grid3 = Inl UndefinedBehaviour"
proof -
  have a: "valid_index grid3 0 1" and b: "\<not> valid_index grid3 0 5"
    by (simp_all add: valid_index_def grid3_def Content_default_def)
  from a Content_replace_unchecked [of grid3 0 1 "''x''"]
  obtain c' where c': "Content_replace_string 0 1 ''x'' grid3 = Inr c'"
      "map length (ct_content c') = map length (ct_content grid3)"
      "\<forall>i j. i < length (ct_content grid3) \<longrightarrow> j < length (ct_content grid3 ! i) \<longrightarrow>
         ct_content c' ! i ! j =
           (if i = nat 0 \<and> j = nat 1
            then Item_value_string ''x'' (ct_content grid3 ! i ! j)
            else ct_content grid3 ! i ! j)"
    by blast
  have g: "ct_content grid3 = [[Item_default, Item_default, Item_default]]"
    by (simp add: grid3_def)
  from c'(3) have "ct_content c' ! 0 ! 1 = Item_value_string ''x'' Item_default"
    "ct_content c' ! 0 ! 0 = Item_default" "ct_content c' ! 0 ! 2 = Item_default"
    by (simp_all add: g)
  moreover have "it_value (Item_value_string ''x'' (Item_default :: unit Item)) = ''x''"
    by (simp add: Item_value_string_def Item_enable_def)
  moreover from b Content_replace_unchecked [of grid3 0 5 "''x''"]
  have "Content_replace_string 0 5 ''x'' grid3 = Inl UndefinedBehaviour" by blast
  ultimately show ?thesis using a b c'(1,2) by (simp add: g)
qed

text \<open>
  C5 as the specification states it fails: \<^verbatim>\<open>replace(0, 5, "x")\<close> on a grid of three
  columns does not fail with \<open>OutOfRange\<close>; it is the undefined out-of-range subscript.
\<close>

theorem Content_replace_counterexample:
  "Content_replace_string 0 5 ''x'' grid3 = Inl UndefinedBehaviour \<and>
   Content_replace_string 0 5 ''x'' grid3 \<noteq> Inl OutOfRange"
  by (simp add: Content_replace_string_def Content_replace_def vec_at_def grid3_def
        Content_default_def)

text \<open>
  After \<^verbatim>\<open>replace\<close> at an index of an existing cell, that cell is enabled and its
  \<^verbatim>\<open>value()\<close> is the string given, or the result of the producer given in the state of
  the call: nothing is cached.
\<close>

lemma Content_replace_then_value:
  assumes "valid_index c row col"
  shows "\<exists>c1 c2.
           Content_replace_string row col v c = Inr c1 \<and>
           Content_replace_func row col f c = Inr c2 \<and>
           it_enabled (ct_content c1 ! nat row ! nat col) \<and>
           Item_value (ct_content c1 ! nat row ! nat col) env = Inr v \<and>
           it_enabled (ct_content c2 ! nat row ! nat col) \<and>
           Item_value (ct_content c2 ! nat row ! nat col) env = Inr (f env)"
proof -
  from assms have r: "nat row < length (ct_content c)"
    and k: "nat col < length (ct_content c ! nat row)"
    unfolding valid_index_def by linarith+
  from assms have in_range: "0 \<le> row" "row < int (length (ct_content c))"
    "0 \<le> col" "col < int (length (ct_content c ! nat row))"
    unfolding valid_index_def by simp_all
  show ?thesis
    unfolding Content_replace_string_def Content_replace_func_def
    by (simp add: Content_replace_in [OF in_range] r k Item_value_def
          Item_value_string_def Item_value_func_def Item_enable_def)
qed

lemma grid1_eq: "grid1 = Inr (Content_default\<lparr>ct_content := [[Item_default]]\<rparr>)"
  by (simp add: grid1_def Content_add_string_def Content_allocateNew_def Content_default_def
        vec_at_def Let_def)

section \<open>Windows\<close>

lemma can_draw_selected [simp]: "can_draw (w\<lparr>w_selected := b\<rparr>) = can_draw w"
  by (simp add: can_draw_def)

lemma title_format_plain:
  assumes "CHR ''%'' \<notin> set name"
  shows "printf_noargs (c_str ('' '' @ name @ '' '')) = Inr (c_str ('' '' @ name @ '' ''))"
proof -
  from assms have "CHR ''%'' \<notin> set ('' '' @ name @ '' '')" by simp
  with c_str_subset [of "'' '' @ name @ '' ''"]
  have "CHR ''%'' \<notin> set (c_str ('' '' @ name @ '' ''))" by blast
  then show ?thesis by (rule printf_noargs_plain)
qed

lemma bind_err_ok:
  assumes "\<exists>x. m = Inr x" and "\<And>x. \<exists>y. f x = Inr y"
  shows "\<exists>y. bind_err m f = Inr y"
  using assms by auto

lemma if_ok:
  assumes "c \<Longrightarrow> \<exists>x. a = Inr x" and "\<not> c \<Longrightarrow> \<exists>x. b = Inr x"
  shows "\<exists>x. (if c then a else b) = Inr x"
  using assms by simp

lemma Window_putTitle_ok:
  assumes "can_draw w"
  shows "\<exists>t. Window_putTitle w = Inr t"
proof (cases "w_titled w")
  case False
  then show ?thesis by (simp add: Window_putTitle_def)
next
  case True
  with assms have p: "CHR ''%'' \<notin> set ('' '' @ w_name w @ '' '')"
    and u: "w_win w \<noteq> Uninitialised"
    by (simp_all add: can_draw_def)
  have "\<exists>t. bind_err (if w_title_align w = ''left'' then Inr 2 else Inr 0) (\<lambda>startx1.
           bind_err (if w_title_align w = ''center''
                     then bind_err (getmaxx (w_win w)) (\<lambda>mx.
                            Inr (to_int (to_size_t (to_size_t mx -
                               int (length ('' '' @ w_name w @ '' ''))) div 2)))
                     else Inr startx1) (\<lambda>startx2.
           bind_err (if w_title_align w = ''right''
                     then bind_err (getmaxx (w_win w)) (\<lambda>mx.
                            Inr (to_int (to_size_t (to_size_t (to_size_t mx -
                               int (length ('' '' @ w_name w @ '' ''))) - 2))))
                     else Inr startx2) (\<lambda>startx.
           bind_err (on_win (w_win w) (if w_selected w then [Wattron_reverse] else [])) (\<lambda>a.
           bind_err (mvwprintw (w_win w) 0 startx ('' '' @ w_name w @ '' '')) (\<lambda>p.
           bind_err (on_win (w_win w) (if w_selected w then [Wattroff_reverse] else [])) (\<lambda>b.
             Inr (a @ p @ b))))))) = Inr t"
    by (intro bind_err_ok if_ok getmax_ok(2) [OF u] on_win_ok [OF u] mvwprintw_ok [OF u p])
       blast+
  with True show ?thesis by (simp only: Window_putTitle_def Let_def if_False not_True_eq_False)
qed

lemma Window_draw_ok:
  assumes "can_draw w"
  shows "\<exists>d. Window_draw w = Inr d"
proof -
  from Window_putTitle_ok [OF assms] obtain t where t: "Window_putTitle w = Inr t" by blast
  from assms have "w_win w \<noteq> Uninitialised" by (simp add: can_draw_def)
  then show ?thesis
    by (cases "w_win w")
       (simp_all add: Window_draw_def Window_drawBox_def t Window_getCoords_def
          Window_refresh_def getmaxx_def getmaxy_def Content_print_4)
qed

lemma Window_draw_uninit: "w_win w = Uninitialised \<Longrightarrow> Window_draw w = Inl UndefinedBehaviour"
  by (simp add: Window_draw_def Window_drawBox_def Window_putTitle_def Window_getCoords_def
        Window_refresh_def getmaxx_def getmaxy_def mvwprintw_def Let_def)

lemma Window_draw_bind:
  "can_draw w \<Longrightarrow> bind_err (Window_draw w) (\<lambda>d. Inr r) = Inr r"
  using Window_draw_ok [of w] by auto

lemma Window_markSelected_ok:
  assumes "can_draw w"
  shows "Window_markSelected w = Inr (w\<lparr>w_selected := True\<rparr>)"
proof -
  from assms have c: "can_draw (w\<lparr>w_selected := True\<rparr>)" by simp
  from assms have "w_win w \<noteq> Uninitialised" by (simp add: can_draw_def)
  then have "\<exists>r. on_win (w_win w) [Wnoutrefresh] = Inr r" by (rule on_win_ok)
  with Window_draw_ok [OF c] show ?thesis
    by (auto simp add: Window_markSelected_def Let_def)
qed

lemma Window_unmarkSelected_ok:
  assumes "can_draw w"
  shows "Window_unmarkSelected w = Inr (w\<lparr>w_selected := False\<rparr>)"
proof -
  from assms have c: "can_draw (w\<lparr>w_selected := False\<rparr>)" by simp
  from Window_draw_ok [OF c] show ?thesis
    by (auto simp add: Window_unmarkSelected_def Let_def)
qed

text \<open>The constructor, \<^verbatim>\<open>resize\<close> and \<^verbatim>\<open>setOption\<close> for a name without \<^verbatim>\<open>%\<close>.\<close>

lemma Window_new_ok:
  assumes "4 \<le> length (func env)" and "CHR ''%'' \<notin> set name"
  shows "\<exists>w. Window_new nc name func env = Inr w \<and> w_getDims w = Some func \<and>
             w_name w = name \<and> w_win w \<noteq> Uninitialised \<and> \<not> w_selected w"
proof -
  let ?w = "Window_default\<lparr>w_getDims := Some func, w_name := name,
              w_win := (case nc_newwin nc (func env ! 0) (func env ! 1) (func env ! 2)
                               (func env ! 3) env of
                          None \<Rightarrow> Null | Some e \<Rightarrow> surface_of e)\<rparr>"
  have u: "w_win ?w \<noteq> Uninitialised"
    by (simp add: surface_of_def split: option.splits prod.splits)
  with assms(2) have "can_draw ?w" by (simp add: can_draw_def)
  then have "bind_err (Window_draw ?w) (\<lambda>d. Inr ?w) = Inr ?w" by (rule Window_draw_bind)
  then have "Window_new nc name func env = Inr ?w"
    using assms(1) by (simp add: Window_new_def Window_getDims_def vec_at_4 Let_def)
  moreover have "\<not> w_selected ?w" by (simp add: Window_default_def)
  ultimately show ?thesis using u by simp
qed

lemma Window_resize_ok:
  assumes "w_getDims w = Some func" and "4 \<le> length (func env)"
    and "w_win w \<noteq> Uninitialised" and "w_titled w \<longrightarrow> CHR ''%'' \<notin> set (w_name w)"
  shows "\<exists>h. Window_resize nc w env = Inr (w\<lparr>w_win := h\<rparr>) \<and> h \<noteq> Uninitialised"
proof -
  let ?d = "func env"
  from win_update_ok [OF assms(3)]
  obtain h1 where h1: "win_update (w_win w) (\<lambda>e. nc_mvwin nc e (?d ! 2) (?d ! 3) env) = Inr h1"
      "h1 \<noteq> Uninitialised"
    by blast
  from win_update_ok [OF h1(2)]
  obtain h2 where h2: "win_update h1 (\<lambda>e. nc_wresize nc e (?d ! 0) (?d ! 1) env) = Inr h2"
      "h2 \<noteq> Uninitialised"
    by blast
  from on_win_ok [OF assms(3)] obtain cl where cl: "on_win (w_win w) [Wclear] = Inr cl"
    by blast
  from h2(2) assms(4) have "can_draw (w\<lparr>w_win := h2\<rparr>)" by (simp add: can_draw_def)
  then have "bind_err (Window_draw (w\<lparr>w_win := h2\<rparr>)) (\<lambda>d. Inr (w\<lparr>w_win := h2\<rparr>)) =
               Inr (w\<lparr>w_win := h2\<rparr>)"
    by (rule Window_draw_bind)
  then have "Window_resize nc w env = Inr (w\<lparr>w_win := h2\<rparr>)"
    using assms(1,2)
    by (simp add: Window_resize_def Window_getDims_def vec_at_4 cl h1(1) h2(1) Let_def
          del: One_nat_def)
  with h2(2) show ?thesis by blast
qed

lemma Window_setOption_ok:
  assumes "w_getDims w = Some func" and "4 \<le> length (func env)"
    and "w_win w \<noteq> Uninitialised" and "CHR ''%'' \<notin> set (w_name w)"
  shows "\<exists>w'. Window_setOption nc opt w env = Inr w' \<and> w_getDims w' = Some func \<and>
              w_win w' \<noteq> Uninitialised \<and> w_name w' = w_name w \<and>
              w_selected w' = w_selected w"
proof -
  have step: "\<exists>w'. Window_resize nc v env = Inr w' \<and> w_getDims w' = Some func \<and>
              w_win w' \<noteq> Uninitialised \<and> w_name w' = w_name w \<and>
              w_selected w' = w_selected w"
    if "w_getDims v = Some func" "w_win v \<noteq> Uninitialised" "w_name v = w_name w"
       "w_selected v = w_selected w" for v
  proof -
    from that(3) assms(4) have "w_titled v \<longrightarrow> CHR ''%'' \<notin> set (w_name v)" by simp
    from Window_resize_ok [where func = func and env = env, OF that(1) assms(2) that(2) this]
    obtain h where "Window_resize nc v env = Inr (v\<lparr>w_win := h\<rparr>)" "h \<noteq> Uninitialised"
      by blast
    with that show ?thesis by simp
  qed
  show ?thesis
    unfolding Window_setOption_def using assms(1,3)
    by (cases opt) (simp_all add: step)
qed




text \<open>
  The title is the format of \<^verbatim>\<open>mvwprintw\<close>: a window named \<open>%s\<close> has a title with a
  conversion and no argument, and a window named \<open>a%%b\<close> shows \<open>'' a%b ''\<close>.
\<close>

lemma Window_putTitle_format:
  "Window_putTitle (win_of ''%s'') = Inl UndefinedBehaviour"
  "Window_putTitle (win_of ''a%%b'') = Inr [Mvwprintw 0 2 '' a%b '']"
  by (simp_all add: win_of_def Window_default_def Window_putTitle_def mvwprintw_def c_str_def)

text \<open>
  \<open>stack_window\<close> and \<open>narrow_window\<close> are what the constructor and the option
  \<open>CALIGNED\<close> build.
\<close>

lemma stack_window_built:
  "bind_err (Window_new nc_plain ''Stack'' stack_dims ())
     (\<lambda>w. Window_setOption nc_plain CALIGNED w ()) = Inr stack_window"
  by (simp add: Window_new_def Window_setOption_def Window_resize_def Window_getDims_def
        vec_at_def stack_dims_def stack_window_def nc_plain_def surface_of_def win_update_def
        Window_draw_bind can_draw_def Window_default_def Let_def)

lemma narrow_window_built:
  "bind_err (Window_new nc_plain ''Stack'' narrow_dims ())
     (\<lambda>w. Window_setOption nc_plain CALIGNED w ()) = Inr narrow_window"
  by (simp add: Window_new_def Window_setOption_def Window_resize_def Window_getDims_def
        vec_at_def narrow_dims_def narrow_window_def nc_plain_def surface_of_def win_update_def
        Window_draw_bind can_draw_def Window_default_def Let_def)

text \<open>
  C4. Rendering does not show the value put by \<^verbatim>\<open>replace\<close>. On the grid built by one
  \<^verbatim>\<open>add\<close>, after \<^verbatim>\<open>replace(0, 0, "x")\<close> the cell's \<^verbatim>\<open>value()\<close> is \<open>''x''\<close>, but
  \<^verbatim>\<open>Content::print\<close> on the interior rectangle makes no call on the window, and
  \<^verbatim>\<open>Window::draw\<close> of a window that holds the grid draws the box and the title only:
  \<^verbatim>\<open>Content::print\<close> reads its arguments and returns without printing a cell.
\<close>

theorem Content_print_draws_nothing:
  "bind_err grid1 (\<lambda>c.
     bind_err (Content_replace_string 0 0 ''x'' c) (\<lambda>c'.
       Inr (Item_value (ct_content c' ! 0 ! 0) (), Content_print c' [1, 18, 1, 1],
            Window_draw ((win_of ''A'')\<lparr>w_content := c'\<rparr>)))) =
   Inr (Inr ''x'', Inr [], Inr [Box, Mvwprintw 0 2 '' A '', Wnoutrefresh])"
  by (simp add: grid1_eq Content_replace_string_def Content_replace_def vec_at_def
        Item_value_def Item_value_string_def Item_enable_def Item_default_def
        Content_print_def win_of_def Window_default_def Window_draw_def Window_drawBox_def
        Window_putTitle_def Window_getCoords_def Window_refresh_def getmaxx_def getmaxy_def
        mvwprintw_def c_str_def)

section \<open>The registry\<close>

lemma Windows_apply_present:
  assumes "map_of (ws_windows ws) name = Some w" and "op w = Inr w'"
  shows "Windows_apply name op ws =
           Inr (ws\<lparr>ws_windows := AList.update name w' (ws_windows ws)\<rparr>)"
  using assms by (simp add: Windows_apply_def Windows_index_def)

lemma Windows_apply_absent:
  assumes "map_of (ws_windows ws) name = None"
  shows "Windows_apply name op ws =
           bind_err (op Window_default) (\<lambda>w'.
             Inr (ws\<lparr>ws_windows := AList.update name w' (ws_windows ws)\<rparr>))"
  using assms by (simp add: Windows_apply_def Windows_index_def)

lemma update_entries: "p \<in> set (AList.update k v al) \<Longrightarrow> p = (k, v) \<or> p \<in> set al"
  by (induction al) (auto split: if_splits)

lemma flags_only_refl: "flags_only ws ws"
  unfolding flags_only_def
proof
  fix p assume "p \<in> set (ws_windows ws)"
  moreover have "snd p = (snd p)\<lparr>w_selected := w_selected (snd p)\<rparr>" by simp
  ultimately show "\<exists>q\<in>set (ws_windows ws). \<exists>b. fst p = fst q \<and> snd p = (snd q)\<lparr>w_selected := b\<rparr>"
    by blast
qed

lemma flags_only_trans:
  assumes "flags_only ws ws1" and "flags_only ws1 ws2"
  shows "flags_only ws ws2"
  unfolding flags_only_def
proof
  fix p assume "p \<in> set (ws_windows ws2)"
  with assms(2) obtain q1 b1 where q1: "q1 \<in> set (ws_windows ws1)" "fst p = fst q1"
      "snd p = (snd q1)\<lparr>w_selected := b1\<rparr>"
    unfolding flags_only_def by blast
  with assms(1) obtain q b where q: "q \<in> set (ws_windows ws)" "fst q1 = fst q"
      "snd q1 = (snd q)\<lparr>w_selected := b\<rparr>"
    unfolding flags_only_def by blast
  from q1(2,3) q(2,3) have "fst p = fst q" "snd p = (snd q)\<lparr>w_selected := b1\<rparr>" by simp_all
  with q(1) show "\<exists>q\<in>set (ws_windows ws). \<exists>b. fst p = fst q \<and> snd p = (snd q)\<lparr>w_selected := b\<rparr>"
    by blast
qed

lemma flags_only_order [simp]:
  "flags_only (ws\<lparr>ws_windowsOrder := xs\<rparr>) ws' = flags_only ws ws'"
  by (simp add: flags_only_def)

text \<open>Marking or unmarking the window stored under a drawable name.\<close>

lemma apply_select:
  assumes "drawable ws n"
    and "\<And>w. can_draw w \<Longrightarrow> op w = Inr (w\<lparr>w_selected := b\<rparr>)"
  shows "\<exists>ws'. Windows_apply n op ws = Inr ws' \<and>
               ws_windowsOrder ws' = ws_windowsOrder ws \<and>
               (\<forall>m. selected_of ws' m = (if m = n then Some b else selected_of ws m)) \<and>
               (\<forall>m. drawable ws' m = drawable ws m) \<and>
               flags_only ws ws'"
proof -
  from assms(1) obtain w where w: "map_of (ws_windows ws) n = Some w" "can_draw w"
    by (auto simp add: drawable_def split: option.splits)
  let ?ws' = "ws\<lparr>ws_windows := AList.update n (w\<lparr>w_selected := b\<rparr>) (ws_windows ws)\<rparr>"
  have "Windows_apply n op ws = Inr ?ws'"
    using w assms(2) by (intro Windows_apply_present) simp_all
  moreover have "\<forall>m. selected_of ?ws' m = (if m = n then Some b else selected_of ws m)"
    by (simp add: selected_of_def update_conv')
  moreover have "\<forall>m. drawable ?ws' m = drawable ws m"
    using w by (simp add: drawable_def update_conv')
  moreover have "flags_only ws ?ws'"
    unfolding flags_only_def
  proof
    fix p assume "p \<in> set (ws_windows ?ws')"
    then have "p = (n, w\<lparr>w_selected := b\<rparr>) \<or> p \<in> set (ws_windows ws)"
      by (auto dest: update_entries)
    then show "\<exists>q\<in>set (ws_windows ws). \<exists>b. fst p = fst q \<and> snd p = (snd q)\<lparr>w_selected := b\<rparr>"
    proof
      assume "p = (n, w\<lparr>w_selected := b\<rparr>)"
      moreover from w(1) have "(n, w) \<in> set (ws_windows ws)" by (rule map_of_SomeD)
      ultimately show ?thesis by force
    next
      assume "p \<in> set (ws_windows ws)"
      moreover have "snd p = (snd p)\<lparr>w_selected := w_selected (snd p)\<rparr>" by simp
      ultimately show ?thesis by blast
    qed
  qed
  ultimately show ?thesis by simp
qed

lemma unmarkEach_ok:
  assumes "\<forall>n\<in>set ns. drawable ws n"
  shows "\<exists>ws'. unmarkEach ns ws = Inr ws' \<and>
               ws_windowsOrder ws' = ws_windowsOrder ws \<and>
               (\<forall>m. selected_of ws' m = (if m \<in> set ns then Some False else selected_of ws m)) \<and>
               (\<forall>m. drawable ws' m = drawable ws m) \<and>
               flags_only ws ws'"
  using assms
proof (induction ns arbitrary: ws)
  case Nil
  then show ?case by (simp add: flags_only_refl)
next
  case (Cons n ns)
  from Cons.prems have "drawable ws n" by simp
  from apply_select [OF this, of Window_unmarkSelected False]
  obtain ws1 where ws1: "Windows_apply n Window_unmarkSelected ws = Inr ws1"
      "ws_windowsOrder ws1 = ws_windowsOrder ws"
      "\<forall>m. selected_of ws1 m = (if m = n then Some False else selected_of ws m)"
      "\<forall>m. drawable ws1 m = drawable ws m"
      "flags_only ws ws1"
    using Window_unmarkSelected_ok by blast
  from Cons.prems ws1(4) have "\<forall>k\<in>set ns. drawable ws1 k" by simp
  from Cons.IH [OF this]
  obtain ws2 where ws2: "unmarkEach ns ws1 = Inr ws2"
      "ws_windowsOrder ws2 = ws_windowsOrder ws1"
      "\<forall>m. selected_of ws2 m = (if m \<in> set ns then Some False else selected_of ws1 m)"
      "\<forall>m. drawable ws2 m = drawable ws1 m"
      "flags_only ws1 ws2"
    by blast
  have "unmarkEach (n # ns) ws = Inr ws2" by (simp add: ws1(1) ws2(1))
  moreover have "ws_windowsOrder ws2 = ws_windowsOrder ws" by (simp add: ws1(2) ws2(2))
  moreover have "\<forall>m. selected_of ws2 m =
                   (if m \<in> set (n # ns) then Some False else selected_of ws m)"
    by (simp add: ws1(3) ws2(3))
  moreover have "\<forall>m. drawable ws2 m = drawable ws m" by (simp add: ws1(4) ws2(4))
  moreover have "flags_only ws ws2" using ws1(5) ws2(5) by (rule flags_only_trans)
  ultimately show ?case by blast
qed

lemma updateMarkedWindow_ok:
  assumes "ws_windowsOrder ws = h # t" and "\<forall>n\<in>set (h # t). drawable ws n"
  shows "\<exists>ws'. updateMarkedWindow ws = Inr ws' \<and>
               ws_windowsOrder ws' = h # t \<and>
               (\<forall>m. selected_of ws' m =
                  (if m \<in> set t then Some False
                   else if m = h then Some True else selected_of ws m)) \<and>
               (\<forall>m. drawable ws' m = drawable ws m) \<and>
               flags_only ws ws'"
proof -
  from assms(2) have "drawable ws h" by simp
  from apply_select [OF this, of Window_markSelected True]
  obtain ws1 where ws1: "Windows_apply h Window_markSelected ws = Inr ws1"
      "ws_windowsOrder ws1 = ws_windowsOrder ws"
      "\<forall>m. selected_of ws1 m = (if m = h then Some True else selected_of ws m)"
      "\<forall>m. drawable ws1 m = drawable ws m"
      "flags_only ws ws1"
    using Window_markSelected_ok by blast
  from assms(2) ws1(4) have "\<forall>k\<in>set t. drawable ws1 k" by simp
  from unmarkEach_ok [OF this]
  obtain ws2 where ws2: "unmarkEach t ws1 = Inr ws2"
      "ws_windowsOrder ws2 = ws_windowsOrder ws1"
      "\<forall>m. selected_of ws2 m = (if m \<in> set t then Some False else selected_of ws1 m)"
      "\<forall>m. drawable ws2 m = drawable ws1 m"
      "flags_only ws1 ws2"
    by blast
  have "updateMarkedWindow ws = Inr ws2"
    by (simp add: updateMarkedWindow_def assms(1) vec_at_def ws1(1,2) ws2(1))
  moreover have "ws_windowsOrder ws2 = h # t" by (simp add: ws1(2) ws2(2) assms(1))
  moreover have "\<forall>m. selected_of ws2 m =
                   (if m \<in> set t then Some False
                    else if m = h then Some True else selected_of ws m)"
    by (simp add: ws1(3) ws2(3))
  moreover have "\<forall>m. drawable ws2 m = drawable ws m" by (simp add: ws1(4) ws2(4))
  moreover have "flags_only ws ws2" using ws1(5) ws2(5) by (rule flags_only_trans)
  ultimately show ?thesis by blast
qed

lemma rotateRight_ok:
  assumes "ws_windowsOrder ws \<noteq> []"
  shows "rotateRightSelectedWindow ws =
           Inr (ws\<lparr>ws_windowsOrder := last (ws_windowsOrder ws) # butlast (ws_windowsOrder ws)\<rparr>)"
proof (cases "ws_windowsOrder ws" rule: rev_cases)
  case Nil
  with assms show ?thesis by simp
next
  case (snoc ys y)
  then show ?thesis
    by (simp add: rotateRightSelectedWindow_def std_rotate_def)
qed

lemma rotateLeft_ok:
  assumes "ws_windowsOrder ws \<noteq> []"
  shows "rotateLeftSelectedWindow ws =
           Inr (ws\<lparr>ws_windowsOrder := tl (ws_windowsOrder ws) @ [hd (ws_windowsOrder ws)]\<rparr>)"
proof (cases "ws_windowsOrder ws")
  case Nil
  with assms show ?thesis by simp
next
  case (Cons y ys)
  then show ?thesis
    by (simp add: rotateLeftSelectedWindow_def std_rotate_def)
qed

lemma notify_rotate_eq:
  "notify nc ''rotate'' env ws = bind_err (rotateRightSelectedWindow ws) updateMarkedWindow"
  by (simp add: notify_def rotateSelectedWindow_def)

lemma notify_rotate_back_eq:
  "notify nc ''rotate-back'' env ws = bind_err (rotateLeftSelectedWindow ws) updateMarkedWindow"
  by (simp add: notify_def rotateSelectedWindow_def)

lemma drawable_order_irrelevant [simp]:
  "drawable (ws\<lparr>ws_windowsOrder := xs\<rparr>) m = drawable ws m"
  by (simp add: drawable_def)

lemma selected_of_order_irrelevant [simp]:
  "selected_of (ws\<lparr>ws_windowsOrder := xs\<rparr>) m = selected_of ws m"
  by (simp add: selected_of_def)

text \<open>The marking that follows a rotation, when the rotated order is \<open>h # t\<close>.\<close>

lemma rotate_then_mark:
  assumes "\<forall>n\<in>set (h # t). drawable ws n"
  shows "\<exists>ws'. updateMarkedWindow (ws\<lparr>ws_windowsOrder := h # t\<rparr>) = Inr ws' \<and>
               ws_windowsOrder ws' = h # t \<and>
               (\<forall>m. selected_of ws' m =
                  (if m \<in> set t then Some False
                   else if m = h then Some True else selected_of ws m)) \<and>
               (\<forall>m. drawable ws' m = drawable ws m) \<and>
               flags_only ws ws'"
proof -
  have a: "ws_windowsOrder (ws\<lparr>ws_windowsOrder := h # t\<rparr>) = h # t" by simp
  from assms have b: "\<forall>n\<in>set (h # t). drawable (ws\<lparr>ws_windowsOrder := h # t\<rparr>) n" by simp
  from updateMarkedWindow_ok [OF a b] show ?thesis
    by (simp only: selected_of_order_irrelevant drawable_order_irrelevant flags_only_order)
qed

text \<open>
  One \<open>rotate\<close> or \<open>rotate-back\<close> notification on a non-empty focus order of drawable
  names: the order is rotated, its new head is marked, the names after it are unmarked
  (in that sequence, so a name that is both ends unmarked), other windows are untouched.
\<close>

lemma notify_rotate_step:
  assumes "ws_windowsOrder ws \<noteq> []" and "\<forall>n\<in>set (ws_windowsOrder ws). drawable ws n"
  shows "\<exists>ws'. notify nc ''rotate'' env ws = Inr ws' \<and>
               ws_windowsOrder ws' = last (ws_windowsOrder ws) # butlast (ws_windowsOrder ws) \<and>
               (\<forall>m. selected_of ws' m =
                  (if m \<in> set (tl (ws_windowsOrder ws')) then Some False
                   else if m = hd (ws_windowsOrder ws') then Some True
                   else selected_of ws m)) \<and>
               (\<forall>m. drawable ws' m = drawable ws m) \<and>
               flags_only ws ws'"
proof -
  let ?h = "last (ws_windowsOrder ws)" and ?t = "butlast (ws_windowsOrder ws)"
  from assms have "\<forall>n\<in>set (?h # ?t). drawable ws n"
    by (auto dest: in_set_butlastD)
  from rotate_then_mark [OF this]
  obtain ws' where ws': "updateMarkedWindow (ws\<lparr>ws_windowsOrder := ?h # ?t\<rparr>) = Inr ws'"
      "ws_windowsOrder ws' = ?h # ?t"
      "\<forall>m. selected_of ws' m =
         (if m \<in> set ?t then Some False else if m = ?h then Some True else selected_of ws m)"
      "\<forall>m. drawable ws' m = drawable ws m"
      "flags_only ws ws'"
    by blast
  have "notify nc ''rotate'' env ws = Inr ws'"
    by (simp only: notify_rotate_eq rotateRight_ok [OF assms(1)] bind_err_Inr ws'(1))
  with ws'(2,3,4,5) show ?thesis by simp
qed

lemma notify_rotate_back_step:
  assumes "ws_windowsOrder ws \<noteq> []" and "\<forall>n\<in>set (ws_windowsOrder ws). drawable ws n"
  shows "\<exists>ws'. notify nc ''rotate-back'' env ws = Inr ws' \<and>
               ws_windowsOrder ws' = tl (ws_windowsOrder ws) @ [hd (ws_windowsOrder ws)] \<and>
               (\<forall>m. selected_of ws' m =
                  (if m \<in> set (tl (ws_windowsOrder ws')) then Some False
                   else if m = hd (ws_windowsOrder ws') then Some True
                   else selected_of ws m)) \<and>
               (\<forall>m. drawable ws' m = drawable ws m) \<and>
               flags_only ws ws'"
proof -
  obtain h t where ht: "tl (ws_windowsOrder ws) @ [hd (ws_windowsOrder ws)] = h # t"
    by (cases "tl (ws_windowsOrder ws) @ [hd (ws_windowsOrder ws)]") simp_all
  from assms have "set (tl (ws_windowsOrder ws) @ [hd (ws_windowsOrder ws)]) = set (ws_windowsOrder ws)"
    by (cases "ws_windowsOrder ws") auto
  with assms(2) ht have "\<forall>n\<in>set (h # t). drawable ws n" by simp
  from rotate_then_mark [OF this]
  obtain ws' where ws': "updateMarkedWindow (ws\<lparr>ws_windowsOrder := h # t\<rparr>) = Inr ws'"
      "ws_windowsOrder ws' = h # t"
      "\<forall>m. selected_of ws' m =
         (if m \<in> set t then Some False else if m = h then Some True else selected_of ws m)"
      "\<forall>m. drawable ws' m = drawable ws m"
      "flags_only ws ws'"
    by blast
  have "notify nc ''rotate-back'' env ws = Inr ws'"
    by (simp only: notify_rotate_back_eq rotateLeft_ok [OF assms(1)] bind_err_Inr ht ws'(1))
  with ws'(2,3,4,5) ht show ?thesis by simp
qed

lemma rotate_right_list:
  assumes "xs \<noteq> []"
  shows "set (last xs # butlast xs) = set xs"
    and "distinct xs \<Longrightarrow> distinct (last xs # butlast xs)"
  using assms by (cases xs rule: rev_cases; auto)+

lemma rotate_left_list:
  assumes "xs \<noteq> []"
  shows "set (tl xs @ [hd xs]) = set xs"
    and "distinct xs \<Longrightarrow> distinct (tl xs @ [hd xs])"
  using assms by (cases xs; auto)+

lemma reg_ABC_drawable: "\<forall>n\<in>set (ws_windowsOrder reg_ABC). drawable reg_ABC n"
  by (simp add: reg_ABC_def drawable_def can_draw_def win_of_def)

lemma reg_ABC_unselected: "selected_of reg_ABC m \<noteq> Some True"
  by (simp add: reg_ABC_def selected_of_def win_of_def Window_default_def)

subsection \<open>Lookup\<close>

text \<open>
  C8, as the code has it. \<^verbatim>\<open>App::window(name)\<close> goes through the non-const
  \<^verbatim>\<open>Windows::operator[]\<close>, that is \<^verbatim>\<open>unordered_map::operator[]\<close>: for a name absent
  from the map it does not fail, it stores a default-constructed \<^verbatim>\<open>Window\<close> under the
  name and returns it; every other entry and the focus order are unchanged. Only the
  const accessor, which uses \<^verbatim>\<open>at\<close>, fails for an absent name (with
  \<^verbatim>\<open>std::out_of_range\<close>).
\<close>

theorem App_window_inserts:
  assumes "map_of (ws_windows (app_windows app)) name = None"
  shows "fst (App_window name app) = Window_default \<and>
         map_of (ws_windows (app_windows (snd (App_window name app)))) =
           (map_of (ws_windows (app_windows app)))(name \<mapsto> Window_default) \<and>
         ws_windowsOrder (app_windows (snd (App_window name app))) =
           ws_windowsOrder (app_windows app) \<and>
         Windows_at name (app_windows app) = Inl OutOfRange"
  using assms
  by (simp add: App_window_def Windows_index_def Windows_at_def update_conv')

text \<open>The name \<open>X\<close> in an application that has no window.\<close>

theorem App_window_inserts_witness:
  "map_of (ws_windows (app_windows (App_default :: unit App))) ''X'' = None \<and>
   fst (App_window ''X'' (App_default :: unit App)) = Window_default \<and>
   map_of (ws_windows (app_windows (snd (App_window ''X'' (App_default :: unit App))))) =
     (map_of (ws_windows (app_windows (App_default :: unit App))))(''X'' \<mapsto> Window_default)"
proof -
  have a: "map_of (ws_windows (app_windows (App_default :: unit App))) ''X'' = None"
    by (simp add: App_default_def Windows_default_def)
  from App_window_inserts [OF a] show ?thesis using a by simp
qed

text \<open>
  C8 as the specification states it fails: looking \<open>X\<close> up in an application that has
  no window returns a window, and the map then has an entry for \<open>X\<close>.
\<close>

theorem App_window_counterexample:
  "map_of (ws_windows (app_windows (App_default :: unit App))) ''X'' = None \<and>
   fst (App_window ''X'' (App_default :: unit App)) = Window_default \<and>
   map_of (ws_windows (app_windows (snd (App_window ''X'' (App_default :: unit App))))) ''X'' =
     Some Window_default"
  by (simp add: App_window_def Windows_index_def App_default_def Windows_default_def)

subsection \<open>Insertion\<close>

lemma setOptions_ok:
  assumes "map_of (ws_windows ws) name = Some w" and "w_getDims w = Some func"
    and "4 \<le> length (func env)" and "w_win w \<noteq> Uninitialised"
    and "CHR ''%'' \<notin> set (w_name w)" and "\<not> w_selected w"
  shows "\<exists>ws'. setOptions nc name opts env ws = Inr ws' \<and>
               ws_windowsOrder ws' = ws_windowsOrder ws \<and> drawable ws' name \<and>
               selected_of ws' name = Some False"
  using assms
proof (induction opts arbitrary: ws w)
  case Nil
  then show ?case by (simp add: drawable_def can_draw_def selected_of_def)
next
  case (Cons opt opts)
  from Window_setOption_ok [where func = func and env = env, OF Cons.prems(2,3,4,5), of nc opt]
  obtain w' where w': "Window_setOption nc opt w env = Inr w'" "w_getDims w' = Some func"
      "w_win w' \<noteq> Uninitialised" "w_name w' = w_name w" "w_selected w' = w_selected w"
    by blast
  let ?ws1 = "ws\<lparr>ws_windows := AList.update name w' (ws_windows ws)\<rparr>"
  have step: "Windows_apply name (\<lambda>w. Window_setOption nc opt w env) ws = Inr ?ws1"
    using Cons.prems(1) w'(1) by (intro Windows_apply_present) simp_all
  have m: "map_of (ws_windows ?ws1) name = Some w'" by (simp add: update_conv')
  from w'(4,5) Cons.prems(5,6) have n: "CHR ''%'' \<notin> set (w_name w')" "\<not> w_selected w'"
    by simp_all
  from Cons.IH [OF m w'(2) Cons.prems(3) w'(3) n]
  obtain ws' where "setOptions nc name opts env ?ws1 = Inr ws'"
      "ws_windowsOrder ws' = ws_windowsOrder ?ws1" "drawable ws' name"
      "selected_of ws' name = Some False"
    by blast
  then show ?case by (simp add: step)
qed

lemma Windows_apply_assign:
  "\<exists>ws1. Windows_apply name (\<lambda>old. Inr w) ws = Inr ws1 \<and>
          ws_windowsOrder ws1 = ws_windowsOrder ws \<and>
          map_of (ws_windows ws1) name = Some w"
  by (cases "map_of (ws_windows ws) name")
     (simp_all add: Windows_apply_def Windows_index_def update_conv')

text \<open>
  C7, as the code has it. \<^verbatim>\<open>App::addWindow\<close> ends with \<^verbatim>\<open>windowsOrder(name)\<close>: for a
  geometry provider that returns its four extents and a name without \<^verbatim>\<open>%\<close>, inserting
  a window succeeds and appends the window's name to the end of the focus order, whose
  earlier entries are unchanged; the new window is drawable and not selected.
\<close>

theorem App_addWindow_pushes_name:
  assumes "4 \<le> length (func env)" and "CHR ''%'' \<notin> set name"
  shows "\<exists>app'. App_addWindow nc name func opts env app = Inr app' \<and>
                ws_windowsOrder (app_windows app') =
                  ws_windowsOrder (app_windows app) @ [name] \<and>
                drawable (app_windows app') name \<and>
                selected_of (app_windows app') name = Some False"
proof -
  from Window_new_ok [where func = func and env = env, OF assms, of nc]
  obtain w where w: "Window_new nc name func env = Inr w" "w_getDims w = Some func"
      "w_name w = name" "w_win w \<noteq> Uninitialised" "\<not> w_selected w"
    by blast
  from Windows_apply_assign [of name w "app_windows app"]
  obtain ws1 where ws1: "Windows_apply name (\<lambda>old. Inr w) (app_windows app) = Inr ws1"
      "ws_windowsOrder ws1 = ws_windowsOrder (app_windows app)"
      "map_of (ws_windows ws1) name = Some w"
    by blast
  from assms(2) w(3) have p: "CHR ''%'' \<notin> set (w_name w)" by simp
  from setOptions_ok [where func = func and env = env, OF ws1(3) w(2) assms(1) w(4) p w(5),
      of nc opts]
  obtain ws2 where ws2: "setOptions nc name opts env ws1 = Inr ws2"
      "ws_windowsOrder ws2 = ws_windowsOrder ws1" "drawable ws2 name"
      "selected_of ws2 name = Some False"
    by blast
  have "App_addWindow nc name func opts env app =
          Inr (app\<lparr>app_windows := windowsOrder_push name ws2\<rparr>)"
    by (simp add: App_addWindow_def w(1) ws1(1) ws2(1))
  moreover have "ws_windowsOrder (windowsOrder_push name ws2) =
                   ws_windowsOrder (app_windows app) @ [name]"
    by (simp add: windowsOrder_push_def ws1(2) ws2(2))
  moreover have "drawable (windowsOrder_push name ws2) name"
    using ws2(3) by (simp add: windowsOrder_push_def drawable_def)
  moreover have "selected_of (windowsOrder_push name ws2) name = Some False"
    using ws2(4) by (simp add: windowsOrder_push_def selected_of_def)
  ultimately show ?thesis by simp
qed

text \<open>
  Inserting \<open>A\<close>, with two options, into an application that has no window.
\<close>

theorem App_addWindow_pushes_name_witness:
  "4 \<le> length (dims ()) \<and> CHR ''%'' \<notin> set ''A'' \<and>
   (\<exists>app'. App_addWindow nc_plain ''A'' dims [NOBOXED, NOTITLED] () App_default = Inr app' \<and>
           ws_windowsOrder (app_windows app') = [''A''])"
proof -
  have a: "4 \<le> length (dims ())" and b: "CHR ''%'' \<notin> set ''A''"
    by (simp_all add: dims_def)
  from App_addWindow_pushes_name [where func = dims and env = "()", OF a b,
      of nc_plain "[NOBOXED, NOTITLED]" App_default]
  show ?thesis using a b by (auto simp add: App_default_def Windows_default_def)
qed

text \<open>
  The registries \<open>reg_ABC\<close> and \<open>reg_AA\<close> are what three insertions, and one
  insertion followed by \<^verbatim>\<open>setWindowsOrder\<close>, build.
\<close>

lemma win_of_built:
  "CHR ''%'' \<notin> set name \<Longrightarrow> Window_new nc_plain name dims () = Inr (win_of name)"
  by (simp add: Window_new_def Window_getDims_def vec_at_def dims_def nc_plain_def
        surface_of_def Window_draw_bind can_draw_def Window_default_def win_of_def Let_def)

lemma reg_ABC_built:
  "bind_err (App_addWindow nc_plain ''A'' dims [] () App_default) (\<lambda>a.
   bind_err (App_addWindow nc_plain ''B'' dims [] () a) (\<lambda>b.
     App_addWindow nc_plain ''C'' dims [] () b)) = Inr \<lparr>app_windows = reg_ABC\<rparr>"
  by (simp add: App_addWindow_def win_of_built Windows_apply_def Windows_index_def
        App_default_def Windows_default_def windowsOrder_push_def reg_ABC_def)

lemma reg_AA_built:
  "bind_err (App_addWindow nc_plain ''A'' dims [] () App_default) (\<lambda>a.
     Inr (App_setWindowsOrder [''A'', ''A''] a)) = Inr \<lparr>app_windows = reg_AA\<rparr>"
  by (simp add: App_addWindow_def win_of_built Windows_apply_def Windows_index_def
        App_default_def Windows_default_def windowsOrder_push_def reg_AA_def
        App_setWindowsOrder_def windowsOrder_set_def)

text \<open>
  C7 as the specification states it fails: inserting \<open>A\<close> into an application with an
  empty focus order leaves the focus order \<open>[A]\<close>.
\<close>

theorem App_addWindow_counterexample:
  "bind_err (App_addWindow nc_plain ''A'' dims [] () App_default)
     (\<lambda>app'. Inr (ws_windowsOrder (app_windows app'))) = Inr [''A''] \<and>
   ws_windowsOrder (app_windows (App_default :: unit App)) = []"
  by (simp add: App_addWindow_def win_of_built Windows_apply_def Windows_index_def
        App_default_def Windows_default_def windowsOrder_push_def)

text \<open>
  The constructor draws the title: inserting a window named \<open>%s\<close> is undefined.
\<close>

lemma App_addWindow_format:
  "App_addWindow nc_plain ''%s'' dims [] () App_default = Inl UndefinedBehaviour"
  by (simp add: App_addWindow_def Window_new_def Window_getDims_def vec_at_def dims_def
        nc_plain_def surface_of_def Window_default_def Window_draw_def Window_drawBox_def
        Window_putTitle_def mvwprintw_def c_str_def Let_def)

subsection \<open>Rotation of the focus order\<close>

text \<open>
  C10. For a registry whose focus order is empty, a \<open>rotate\<close> or \<open>rotate-back\<close>
  notification is not a no-op: \<^verbatim>\<open>std::rotate\<close> is called with the middle iterator
  \<^verbatim>\<open>begin() + 1\<close> (or \<^verbatim>\<open>rbegin() + 1\<close>) past the end of the empty vector, which is
  undefined behaviour, before the guard of \<^verbatim>\<open>updateMarkedWindow\<close> on the empty order is
  reached.
\<close>

theorem notify_rotate_empty_order:
  assumes "ws_windowsOrder ws = []"
  shows "notify nc ''rotate'' env ws = Inl UndefinedBehaviour \<and>
         notify nc ''rotate-back'' env ws = Inl UndefinedBehaviour"
  using assms
  by (simp add: notify_def rotateSelectedWindow_def rotateRightSelectedWindow_def
        rotateLeftSelectedWindow_def std_rotate_def)

text \<open>
  The registry of a new application, which has no window and an empty focus order.
\<close>

theorem notify_rotate_empty_order_witness:
  "ws_windowsOrder (Windows_default :: unit Windows) = [] \<and>
   notify nc_plain ''rotate'' () Windows_default = Inl UndefinedBehaviour \<and>
   notify nc_plain ''rotate-back'' () Windows_default = Inl UndefinedBehaviour"
proof -
  have a: "ws_windowsOrder (Windows_default :: unit Windows) = []"
    by (simp add: Windows_default_def)
  from notify_rotate_empty_order [OF a] show ?thesis using a by simp
qed

text \<open>
  C1, as the code has it. For a registry with a non-empty focus order whose names are
  all drawable and whose last name occurs only once in it, a \<open>rotate\<close> notification
  succeeds, moves the last name to the head of the focus order, leaves the head window
  selected and every other window of the focus order unselected, and changes the flag of
  no window outside the focus order.
\<close>

theorem notify_rotate_forward:
  assumes "ws_windowsOrder ws \<noteq> []"
    and "\<forall>n\<in>set (ws_windowsOrder ws). drawable ws n"
    and "last (ws_windowsOrder ws) \<notin> set (butlast (ws_windowsOrder ws))"
  shows "\<exists>ws'. notify nc ''rotate'' env ws = Inr ws' \<and>
               ws_windowsOrder ws' = last (ws_windowsOrder ws) # butlast (ws_windowsOrder ws) \<and>
               selected_of ws' (hd (ws_windowsOrder ws')) = Some True \<and>
               (\<forall>n\<in>set (tl (ws_windowsOrder ws')). selected_of ws' n = Some False) \<and>
               (\<forall>m. m \<notin> set (ws_windowsOrder ws) \<longrightarrow> selected_of ws' m = selected_of ws m)"
proof -
  from notify_rotate_step [OF assms(1,2), of nc env]
  obtain ws' where ws': "notify nc ''rotate'' env ws = Inr ws'"
      "ws_windowsOrder ws' = last (ws_windowsOrder ws) # butlast (ws_windowsOrder ws)"
      "\<forall>m. selected_of ws' m =
         (if m \<in> set (tl (ws_windowsOrder ws')) then Some False
          else if m = hd (ws_windowsOrder ws') then Some True
          else selected_of ws m)"
    by blast
  have "selected_of ws' (hd (ws_windowsOrder ws')) = Some True"
    using assms(3) by (simp add: ws'(3)) (simp add: ws'(2))
  moreover have "\<forall>n\<in>set (tl (ws_windowsOrder ws')). selected_of ws' n = Some False"
    by (simp add: ws'(3))
  moreover have "\<forall>m. m \<notin> set (ws_windowsOrder ws) \<longrightarrow> selected_of ws' m = selected_of ws m"
    using assms(1) by (auto simp add: ws'(3)) (auto simp add: ws'(2) dest: in_set_butlastD)
  ultimately show ?thesis using ws'(1,2) by blast
qed

text \<open>
  The scenario: windows and focus order \<open>[A, B, C]\<close>; one \<open>rotate\<close> gives the order
  \<open>[C, A, B]\<close> with \<open>C\<close> selected, \<open>A\<close> and \<open>B\<close> not.
\<close>

theorem notify_rotate_forward_witness:
  "ws_windowsOrder reg_ABC = [''A'', ''B'', ''C''] \<and>
   (\<exists>ws'. notify nc_plain ''rotate'' () reg_ABC = Inr ws' \<and>
          ws_windowsOrder ws' = [''C'', ''A'', ''B''] \<and>
          selected_of ws' ''C'' = Some True \<and>
          selected_of ws' ''A'' = Some False \<and>
          selected_of ws' ''B'' = Some False)"
proof -
  have o: "ws_windowsOrder reg_ABC = [''A'', ''B'', ''C'']" by (simp add: reg_ABC_def)
  have a: "ws_windowsOrder reg_ABC \<noteq> []" by (simp add: o)
  have c: "last (ws_windowsOrder reg_ABC) \<notin> set (butlast (ws_windowsOrder reg_ABC))"
    by (simp add: o)
  from notify_rotate_forward [OF a reg_ABC_drawable c, of nc_plain "()"]
  obtain ws' where "notify nc_plain ''rotate'' () reg_ABC = Inr ws'"
      "ws_windowsOrder ws' = last (ws_windowsOrder reg_ABC) # butlast (ws_windowsOrder reg_ABC)"
      "selected_of ws' (hd (ws_windowsOrder ws')) = Some True"
      "\<forall>n\<in>set (tl (ws_windowsOrder ws')). selected_of ws' n = Some False"
    by blast
  then show ?thesis by (simp add: o)
qed

text \<open>
  C1 as the specification states it fails: with the focus order \<open>[A, A]\<close> the head
  window \<open>A\<close> is marked and then unmarked by the loop, and ends unselected.
\<close>

theorem notify_rotate_forward_counterexample:
  "bind_err (notify nc_plain ''rotate'' () reg_AA) (\<lambda>ws'.
     Inr (ws_windowsOrder ws', selected_of ws' ''A'')) = Inr ([''A'', ''A''], Some False)"
proof -
  have a: "ws_windowsOrder reg_AA \<noteq> []" by (simp add: reg_AA_def)
  have b: "\<forall>n\<in>set (ws_windowsOrder reg_AA). drawable reg_AA n"
    by (simp add: reg_AA_def drawable_def can_draw_def win_of_def)
  from notify_rotate_step [OF a b, of nc_plain "()"]
  obtain ws' where "notify nc_plain ''rotate'' () reg_AA = Inr ws'"
      "ws_windowsOrder ws' = last (ws_windowsOrder reg_AA) # butlast (ws_windowsOrder reg_AA)"
      "\<forall>m. selected_of ws' m =
         (if m \<in> set (tl (ws_windowsOrder ws')) then Some False
          else if m = hd (ws_windowsOrder ws') then Some True
          else selected_of reg_AA m)"
    by blast
  then show ?thesis by (simp add: reg_AA_def)
qed

text \<open>
  One \<open>rotate\<close> or \<open>rotate-back\<close> notification on a non-empty, duplicate-free focus order
  of drawable names, when no window outside the focus order is selected: the same holds
  afterwards, and exactly the head of the focus order is selected.
\<close>

lemma rotation_step_selection:
  assumes "ws_windowsOrder ws \<noteq> []"
    and "distinct (ws_windowsOrder ws)"
    and "\<forall>n\<in>set (ws_windowsOrder ws). drawable ws n"
    and "\<forall>m. selected_of ws m = Some True \<longrightarrow> m \<in> set (ws_windowsOrder ws)"
    and "message = ''rotate'' \<or> message = ''rotate-back''"
  shows "\<exists>ws'. notify nc message env ws = Inr ws' \<and>
               ws_windowsOrder ws' \<noteq> [] \<and>
               distinct (ws_windowsOrder ws') \<and>
               set (ws_windowsOrder ws') = set (ws_windowsOrder ws) \<and>
               (\<forall>n\<in>set (ws_windowsOrder ws'). drawable ws' n) \<and>
               (\<forall>m. selected_of ws' m = Some True \<longleftrightarrow> m = hd (ws_windowsOrder ws')) \<and>
               flags_only ws ws'"
proof -
  have "\<exists>ws'. notify nc message env ws = Inr ws' \<and>
              ws_windowsOrder ws' \<noteq> [] \<and>
              distinct (ws_windowsOrder ws') \<and>
              set (ws_windowsOrder ws') = set (ws_windowsOrder ws) \<and>
              (\<forall>m. drawable ws' m = drawable ws m) \<and>
              (\<forall>m. selected_of ws' m =
                 (if m \<in> set (tl (ws_windowsOrder ws')) then Some False
                  else if m = hd (ws_windowsOrder ws') then Some True
                  else selected_of ws m)) \<and>
              flags_only ws ws'"
  proof (cases "message = ''rotate''")
    case True
    from notify_rotate_step [OF assms(1,3), of nc env]
    obtain ws' where ws': "notify nc ''rotate'' env ws = Inr ws'"
        "ws_windowsOrder ws' = last (ws_windowsOrder ws) # butlast (ws_windowsOrder ws)"
        "\<forall>m. selected_of ws' m =
           (if m \<in> set (tl (ws_windowsOrder ws')) then Some False
            else if m = hd (ws_windowsOrder ws') then Some True
            else selected_of ws m)"
        "\<forall>m. drawable ws' m = drawable ws m"
        "flags_only ws ws'"
      by blast
    from rotate_right_list [OF assms(1)] assms(2) ws'(2)
    have "ws_windowsOrder ws' \<noteq> []" "distinct (ws_windowsOrder ws')"
      "set (ws_windowsOrder ws') = set (ws_windowsOrder ws)"
      by simp_all
    with ws'(1,3,4,5) True show ?thesis by blast
  next
    case False
    with assms(5) have m: "message = ''rotate-back''" by simp
    from notify_rotate_back_step [OF assms(1,3), of nc env]
    obtain ws' where ws': "notify nc ''rotate-back'' env ws = Inr ws'"
        "ws_windowsOrder ws' = tl (ws_windowsOrder ws) @ [hd (ws_windowsOrder ws)]"
        "\<forall>m. selected_of ws' m =
           (if m \<in> set (tl (ws_windowsOrder ws')) then Some False
            else if m = hd (ws_windowsOrder ws') then Some True
            else selected_of ws m)"
        "\<forall>m. drawable ws' m = drawable ws m"
        "flags_only ws ws'"
      by blast
    from rotate_left_list [OF assms(1)] assms(2) ws'(2)
    have "ws_windowsOrder ws' \<noteq> []" "distinct (ws_windowsOrder ws')"
      "set (ws_windowsOrder ws') = set (ws_windowsOrder ws)"
      by simp_all
    with ws'(1,3,4,5) m show ?thesis by blast
  qed
  then obtain ws' where ws': "notify nc message env ws = Inr ws'"
      "ws_windowsOrder ws' \<noteq> []" "distinct (ws_windowsOrder ws')"
      "set (ws_windowsOrder ws') = set (ws_windowsOrder ws)"
      "\<forall>m. drawable ws' m = drawable ws m"
      "\<forall>m. selected_of ws' m =
         (if m \<in> set (tl (ws_windowsOrder ws')) then Some False
          else if m = hd (ws_windowsOrder ws') then Some True
          else selected_of ws m)"
      "flags_only ws ws'"
    by blast
  obtain h t where ht: "ws_windowsOrder ws' = h # t"
    using ws'(2) by (cases "ws_windowsOrder ws'") simp_all
  have "\<forall>m. selected_of ws' m = Some True \<longleftrightarrow> m = hd (ws_windowsOrder ws')"
  proof
    fix m
    show "selected_of ws' m = Some True \<longleftrightarrow> m = hd (ws_windowsOrder ws')"
    proof (cases "m \<in> set (ws_windowsOrder ws')")
      case True
      with ws'(3) ht show ?thesis by (auto simp add: ws'(6))
    next
      case False
      with ws'(4) assms(4) have "selected_of ws m \<noteq> Some True" by blast
      with False ht show ?thesis by (auto simp add: ws'(6))
    qed
  qed
  moreover from assms(3) ws'(4,5) have "\<forall>n\<in>set (ws_windowsOrder ws'). drawable ws' n"
    by simp
  ultimately show ?thesis using ws'(1,2,3,4,7) by blast
qed

subsection \<open>Resizing\<close>

lemma resizable_selected [simp]: "resizable env (w\<lparr>w_selected := b\<rparr>) = resizable env w"
  by (simp add: resizable_def)

lemma flags_only_resizable:
  assumes "flags_only ws ws'" and "\<forall>p\<in>set (ws_windows ws). resizable env (snd p)"
  shows "\<forall>p\<in>set (ws_windows ws'). resizable env (snd p)"
proof
  fix p assume "p \<in> set (ws_windows ws')"
  with assms(1) obtain q b where "q \<in> set (ws_windows ws)" "snd p = (snd q)\<lparr>w_selected := b\<rparr>"
    unfolding flags_only_def by blast
  with assms(2) show "resizable env (snd p)" by simp
qed

lemma Window_resize_resizable:
  assumes "resizable env w"
  shows "\<exists>w'. Window_resize nc w env = Inr w' \<and> resized w w'"
proof -
  from assms obtain func where f: "w_getDims w = Some func" "4 \<le> length (func env)"
    by (auto simp add: resizable_def split: option.splits)
  from assms have c: "w_win w \<noteq> Uninitialised" "w_titled w \<longrightarrow> CHR ''%'' \<notin> set (w_name w)"
    by (simp_all add: resizable_def can_draw_def)
  from Window_resize_ok [where func = func and env = env, OF f c, of nc]
  show ?thesis unfolding resized_def by blast
qed

lemma resized_facts:
  assumes "resized w w'"
  shows "w_selected w' = w_selected w" and "can_draw w \<Longrightarrow> can_draw w'"
    and "resizable e w \<Longrightarrow> resizable e w'"
  using assms by (auto simp add: resized_def can_draw_def resizable_def)

lemma resizeEach_ok:
  assumes "\<forall>p\<in>set ps. resizable env (snd p)"
  shows "\<exists>ps'. resizeEach nc ps env = Inr ps' \<and>
               list_all2 (\<lambda>p p'. fst p' = fst p \<and> resized (snd p) (snd p')) ps ps'"
  using assms
proof (induction ps)
  case Nil
  then show ?case by simp
next
  case (Cons p ps)
  from Cons.prems have "resizable env (snd p)" by simp
  from Window_resize_resizable [OF this, of nc]
  obtain w' where w': "Window_resize nc (snd p) env = Inr w'" "resized (snd p) w'" by blast
  from Cons.prems have "\<forall>q\<in>set ps. resizable env (snd q)" by simp
  from Cons.IH [OF this]
  obtain ps' where ps': "resizeEach nc ps env = Inr ps'"
      "list_all2 (\<lambda>p p'. fst p' = fst p \<and> resized (snd p) (snd p')) ps ps'"
    by blast
  have "resizeEach nc (p # ps) env = Inr ((fst p, w') # ps')"
    by (simp add: w'(1) ps'(1))
  moreover have "list_all2 (\<lambda>p p'. fst p' = fst p \<and> resized (snd p) (snd p'))
                   (p # ps) ((fst p, w') # ps')"
    using w'(2) ps'(2) by simp
  ultimately show ?case by blast
qed

lemma map_of_resized:
  assumes "list_all2 (\<lambda>p p'. fst p' = fst p \<and> resized (snd p) (snd p')) ps ps'"
  shows "rel_option resized (map_of ps k) (map_of ps' k)"
  using assms
proof (induction ps ps' rule: list_all2_induct)
  case Nil
  then show ?case by simp
next
  case (Cons p ps p' ps')
  then show ?case by (cases p; cases p') auto
qed

lemma notify_resize_ok:
  assumes "\<forall>p\<in>set (ws_windows ws). resizable env (snd p)"
  shows "\<exists>ws'. notify nc ''resize'' env ws = Inr ws' \<and>
               ws_windowsOrder ws' = ws_windowsOrder ws \<and>
               (\<forall>m. selected_of ws' m = selected_of ws m) \<and>
               (\<forall>m. drawable ws m \<longrightarrow> drawable ws' m) \<and>
               (\<forall>e. (\<forall>p\<in>set (ws_windows ws). resizable e (snd p)) \<longrightarrow>
                    (\<forall>p\<in>set (ws_windows ws'). resizable e (snd p)))"
proof -
  from resizeEach_ok [OF assms, of nc]
  obtain ps' where ps': "resizeEach nc (ws_windows ws) env = Inr ps'"
      "list_all2 (\<lambda>p p'. fst p' = fst p \<and> resized (snd p) (snd p')) (ws_windows ws) ps'"
    by blast
  let ?ws' = "ws\<lparr>ws_windows := ps'\<rparr>"
  have n: "notify nc ''resize'' env ws = Inr ?ws'"
    by (simp add: notify_def resizeAllWindows_def ps'(1))
  have rel: "rel_option resized (map_of (ws_windows ws) m) (map_of ps' m)" for m
    using ps'(2) by (rule map_of_resized)
  have sel: "\<forall>m. selected_of ?ws' m = selected_of ws m"
  proof
    fix m
    from rel [of m] show "selected_of ?ws' m = selected_of ws m"
      by (cases "map_of (ws_windows ws) m"; cases "map_of ps' m")
         (simp_all add: selected_of_def resized_facts(1))
  qed
  have dr: "\<forall>m. drawable ws m \<longrightarrow> drawable ?ws' m"
  proof (intro allI impI)
    fix m assume "drawable ws m"
    with rel [of m] show "drawable ?ws' m"
      by (cases "map_of (ws_windows ws) m"; cases "map_of ps' m")
         (simp_all add: drawable_def resized_facts(2))
  qed
  have rs: "\<forall>e. (\<forall>p\<in>set (ws_windows ws). resizable e (snd p)) \<longrightarrow>
                (\<forall>p\<in>set (ws_windows ?ws'). resizable e (snd p))"
  proof (intro allI impI ballI)
    fix e p' assume all: "\<forall>p\<in>set (ws_windows ws). resizable e (snd p)"
      and "p' \<in> set (ws_windows ?ws')"
    then have "p' \<in> set ps'" by simp
    then obtain i where i: "i < length ps'" "p' = ps' ! i" by (auto simp add: in_set_conv_nth)
    from ps'(2) have len: "length (ws_windows ws) = length ps'" by (rule list_all2_lengthD)
    from ps'(2) i(1) len have "resized (snd (ws_windows ws ! i)) (snd (ps' ! i))"
      by (simp add: list_all2_conv_all_nth)
    moreover from i(1) len have "ws_windows ws ! i \<in> set (ws_windows ws)" by simp
    ultimately obtain p where "p \<in> set (ws_windows ws)" "resized (snd p) (snd p')"
      using i(2) by blast
    with all show "resizable e (snd p')" by (auto intro: resized_facts(3))
  qed
  from n sel dr rs show ?thesis by simp
qed

lemma notify_other:
  assumes "message \<noteq> ''resize''" "message \<noteq> ''rotate''" "message \<noteq> ''rotate-back''"
  shows "notify nc message env ws = Inr ws"
  using assms by (simp add: notify_def)

subsection \<open>The selection over a sequence of notifications\<close>

text \<open>
  The state that every notification keeps: a non-empty, duplicate-free focus order of
  drawable names, with exactly the window of its head selected.
\<close>

lemma notify_keeps_selection:
  assumes "ws_windowsOrder ws \<noteq> []"
    and "distinct (ws_windowsOrder ws)"
    and "\<forall>n\<in>set (ws_windowsOrder ws). drawable ws n"
    and "\<forall>m. selected_of ws m = Some True \<longleftrightarrow> m = hd (ws_windowsOrder ws)"
    and "message = ''resize'' \<longrightarrow> (\<forall>p\<in>set (ws_windows ws). resizable env (snd p))"
  shows "\<exists>ws'. notify nc message env ws = Inr ws' \<and>
               ws_windowsOrder ws' \<noteq> [] \<and>
               distinct (ws_windowsOrder ws') \<and>
               (\<forall>n\<in>set (ws_windowsOrder ws'). drawable ws' n) \<and>
               (\<forall>m. selected_of ws' m = Some True \<longleftrightarrow> m = hd (ws_windowsOrder ws')) \<and>
               (\<forall>e. (\<forall>p\<in>set (ws_windows ws). resizable e (snd p)) \<longrightarrow>
                    (\<forall>p\<in>set (ws_windows ws'). resizable e (snd p)))"
proof -
  consider (rot) "message = ''rotate'' \<or> message = ''rotate-back''"
    | (res) "message = ''resize''"
    | (other) "message \<noteq> ''resize''" "message \<noteq> ''rotate''" "message \<noteq> ''rotate-back''"
    by blast
  then show ?thesis
  proof cases
    case rot
    from assms(1,4) have stale: "\<forall>m. selected_of ws m = Some True \<longrightarrow> m \<in> set (ws_windowsOrder ws)"
      by simp
    from rotation_step_selection [OF assms(1,2,3) stale rot, of nc env]
    obtain ws' where ws': "notify nc message env ws = Inr ws'"
        "ws_windowsOrder ws' \<noteq> []" "distinct (ws_windowsOrder ws')"
        "\<forall>n\<in>set (ws_windowsOrder ws'). drawable ws' n"
        "\<forall>m. selected_of ws' m = Some True \<longleftrightarrow> m = hd (ws_windowsOrder ws')"
        "flags_only ws ws'"
      by blast
    from ws'(6) have "\<forall>e. (\<forall>p\<in>set (ws_windows ws). resizable e (snd p)) \<longrightarrow>
                    (\<forall>p\<in>set (ws_windows ws'). resizable e (snd p))"
      by (blast intro: flags_only_resizable [rule_format])
    with ws'(1,2,3,4,5) show ?thesis by blast
  next
    case res
    with assms(5) have "\<forall>p\<in>set (ws_windows ws). resizable env (snd p)" by simp
    from notify_resize_ok [OF this, of nc]
    obtain ws' where ws': "notify nc ''resize'' env ws = Inr ws'"
        "ws_windowsOrder ws' = ws_windowsOrder ws"
        "\<forall>m. selected_of ws' m = selected_of ws m"
        "\<forall>m. drawable ws m \<longrightarrow> drawable ws' m"
        "\<forall>e. (\<forall>p\<in>set (ws_windows ws). resizable e (snd p)) \<longrightarrow>
             (\<forall>p\<in>set (ws_windows ws'). resizable e (snd p))"
      by blast
    from ws'(2,3,4) assms(1,2,3,4)
    have "ws_windowsOrder ws' \<noteq> []" "distinct (ws_windowsOrder ws')"
      "\<forall>n\<in>set (ws_windowsOrder ws'). drawable ws' n"
      "\<forall>m. selected_of ws' m = Some True \<longleftrightarrow> m = hd (ws_windowsOrder ws')"
      by simp_all
    with ws'(1,5) res show ?thesis by blast
  next
    case other
    from notify_other [OF other, of nc env ws] assms(1,2,3,4) show ?thesis by simp
  qed
qed

lemma notify_each_keeps_selection:
  assumes "ws_windowsOrder ws \<noteq> []"
    and "distinct (ws_windowsOrder ws)"
    and "\<forall>n\<in>set (ws_windowsOrder ws). drawable ws n"
    and "\<forall>m. selected_of ws m = Some True \<longleftrightarrow> m = hd (ws_windowsOrder ws)"
    and "\<forall>ev\<in>set events. fst ev = ''resize'' \<longrightarrow>
           (\<forall>p\<in>set (ws_windows ws). resizable (snd ev) (snd p))"
  shows "\<exists>ws'. notify_each nc events ws = Inr ws' \<and>
               ws_windowsOrder ws' \<noteq> [] \<and>
               (\<forall>m. selected_of ws' m = Some True \<longleftrightarrow> m = hd (ws_windowsOrder ws'))"
  using assms
proof (induction events arbitrary: ws)
  case Nil
  then show ?case by simp
next
  case (Cons ev events)
  from Cons.prems(5)
  have r: "fst ev = ''resize'' \<longrightarrow> (\<forall>p\<in>set (ws_windows ws). resizable (snd ev) (snd p))"
    by simp
  from notify_keeps_selection [OF Cons.prems(1,2,3,4) r, of nc]
  obtain ws1 where ws1: "notify nc (fst ev) (snd ev) ws = Inr ws1"
      "ws_windowsOrder ws1 \<noteq> []" "distinct (ws_windowsOrder ws1)"
      "\<forall>n\<in>set (ws_windowsOrder ws1). drawable ws1 n"
      "\<forall>m. selected_of ws1 m = Some True \<longleftrightarrow> m = hd (ws_windowsOrder ws1)"
      "\<forall>e. (\<forall>p\<in>set (ws_windows ws). resizable e (snd p)) \<longrightarrow>
           (\<forall>p\<in>set (ws_windows ws1). resizable e (snd p))"
    by blast
  from Cons.prems(5) ws1(6)
  have "\<forall>ev\<in>set events. fst ev = ''resize'' \<longrightarrow>
          (\<forall>p\<in>set (ws_windows ws1). resizable (snd ev) (snd p))"
    by simp
  from Cons.IH [OF ws1(2,3,4,5) this] ws1(1) show ?case by simp
qed

text \<open>
  C2, as the code has it. Setting or extending the focus order changes no
  \<^verbatim>\<open>_selected\<close> flag: the selection is derived by the \<open>rotate\<close> and \<open>rotate-back\<close>
  notifications only. For a registry with a non-empty, duplicate-free focus order of
  drawable names in which no window outside the focus order is selected, after every
  sequence of notifications that starts with a \<open>rotate\<close> or a \<open>rotate-back\<close> (so at
  every observation point from that notification on) exactly one window is selected, the
  one named by the head of the focus order. The notifications that follow the first are
  any messages; for a \<open>resize\<close> among them every window of the registry can be resized
  in the state of the terminal at that time.
\<close>

theorem selection_after_rotations:
  assumes "fst event = ''rotate'' \<or> fst event = ''rotate-back''"
    and "ws_windowsOrder ws \<noteq> []"
    and "distinct (ws_windowsOrder ws)"
    and "\<forall>n\<in>set (ws_windowsOrder ws). drawable ws n"
    and "\<forall>m. selected_of ws m = Some True \<longrightarrow> m \<in> set (ws_windowsOrder ws)"
    and "\<forall>ev\<in>set events. fst ev = ''resize'' \<longrightarrow>
           (\<forall>p\<in>set (ws_windows ws). resizable (snd ev) (snd p))"
  shows "(\<exists>ws'. notify_each nc (event # events) ws = Inr ws' \<and>
                ws_windowsOrder ws' \<noteq> [] \<and>
                (\<forall>m. selected_of ws' m = Some True \<longleftrightarrow> m = hd (ws_windowsOrder ws'))) \<and>
         (\<forall>m. selected_of (windowsOrder_set order ws) m = selected_of ws m) \<and>
         (\<forall>m. selected_of (windowsOrder_push name ws) m = selected_of ws m)"
proof (intro conjI)
  from rotation_step_selection [OF assms(2,3,4,5,1), of nc "snd event"]
  obtain ws1 where ws1: "notify nc (fst event) (snd event) ws = Inr ws1"
      "ws_windowsOrder ws1 \<noteq> []" "distinct (ws_windowsOrder ws1)"
      "\<forall>n\<in>set (ws_windowsOrder ws1). drawable ws1 n"
      "\<forall>m. selected_of ws1 m = Some True \<longleftrightarrow> m = hd (ws_windowsOrder ws1)"
      "flags_only ws ws1"
    by blast
  from assms(6) ws1(6)
  have "\<forall>ev\<in>set events. fst ev = ''resize'' \<longrightarrow>
          (\<forall>p\<in>set (ws_windows ws1). resizable (snd ev) (snd p))"
    by (blast intro: flags_only_resizable [rule_format])
  from notify_each_keeps_selection [OF ws1(2,3,4,5) this, of nc] ws1(1)
  show "\<exists>ws'. notify_each nc (event # events) ws = Inr ws' \<and>
              ws_windowsOrder ws' \<noteq> [] \<and>
              (\<forall>m. selected_of ws' m = Some True \<longleftrightarrow> m = hd (ws_windowsOrder ws'))"
    by simp
next
  show "\<forall>m. selected_of (windowsOrder_set order ws) m = selected_of ws m"
    by (simp add: windowsOrder_set_def)
next
  show "\<forall>m. selected_of (windowsOrder_push name ws) m = selected_of ws m"
    by (simp add: windowsOrder_push_def)
qed

text \<open>
  The registry \<open>reg_ABC\<close>, where no window is selected, and four notifications.
\<close>

theorem selection_after_rotations_witness:
  "ws_windowsOrder reg_ABC \<noteq> [] \<and> distinct (ws_windowsOrder reg_ABC) \<and>
   list_all (\<lambda>p. resizable () (snd p)) (ws_windows reg_ABC) \<and>
   (\<exists>ws'. notify_each nc_plain
            [(''rotate'', ()), (''resize'', ()), (''rotate-back'', ()), (''rotate-back'', ())]
            reg_ABC = Inr ws' \<and>
          ws_windowsOrder ws' \<noteq> [] \<and>
          (\<forall>m. selected_of ws' m = Some True \<longleftrightarrow> m = hd (ws_windowsOrder ws')))"
proof -
  have e: "fst (''rotate'', ()) = ''rotate'' \<or> fst (''rotate'', ()) = ''rotate-back''" by simp
  have a: "ws_windowsOrder reg_ABC \<noteq> []" and b: "distinct (ws_windowsOrder reg_ABC)"
    by (simp_all add: reg_ABC_def)
  have d: "\<forall>m. selected_of reg_ABC m = Some True \<longrightarrow> m \<in> set (ws_windowsOrder reg_ABC)"
    by (simp add: reg_ABC_unselected)
  have r: "\<forall>p\<in>set (ws_windows reg_ABC). resizable () (snd p)"
    by (simp add: reg_ABC_def resizable_def can_draw_def win_of_def dims_def)
  then have r': "\<forall>ev\<in>set [(''resize'', ()), (''rotate-back'', ()), (''rotate-back'', ())].
           fst ev = ''resize'' \<longrightarrow> (\<forall>p\<in>set (ws_windows reg_ABC). resizable (snd ev) (snd p))"
    by simp
  from selection_after_rotations [OF e a b reg_ABC_drawable d r', of nc_plain]
  show ?thesis using a b r by (simp add: list_all_iff)
qed

text \<open>
  C2 as the specification states it fails: after \<open>A\<close> is inserted into a new
  application the focus order is \<open>[A]\<close> and \<open>A\<close> is not selected, and setting the
  focus order to \<open>[A]\<close> again does not select it either.
\<close>

theorem selection_after_insert_counterexample:
  "bind_err (App_addWindow nc_plain ''A'' dims [] () App_default) (\<lambda>app'.
     Inr (ws_windowsOrder (app_windows app'), selected_of (app_windows app') ''A'',
          ws_windowsOrder (app_windows (App_setWindowsOrder [''A''] app')),
          selected_of (app_windows (App_setWindowsOrder [''A''] app')) ''A'')) =
   Inr ([''A''], Some False, [''A''], Some False)"
  by (simp add: App_addWindow_def win_of_built Windows_apply_def Windows_index_def
        App_default_def Windows_default_def windowsOrder_push_def selected_of_def
        win_of_def Window_default_def App_setWindowsOrder_def windowsOrder_set_def)

lemma notify_n_Suc_right:
  "notify_n nc (Suc n) message env ws =
     bind_err (notify_n nc n message env ws) (notify nc message env)"
proof (induction n arbitrary: ws)
  case 0
  then show ?case by simp
next
  case (Suc n)
  show ?case
  proof (cases "notify nc message env ws")
    case (Inl e)
    then show ?thesis by simp
  next
    case (Inr ws')
    with Suc.IH [of ws'] show ?thesis by simp
  qed
qed

text \<open>
  C3, as the code has it. For every non-empty focus order whose names are all drawable
  and every \<open>n\<close>, \<open>n\<close> \<open>rotate\<close> notifications followed by \<open>n\<close> \<open>rotate-back\<close>
  notifications all succeed and leave the focus order equal to the original order.
\<close>

theorem rotation_round_trip:
  assumes "ws_windowsOrder ws \<noteq> []"
    and "\<forall>m\<in>set (ws_windowsOrder ws). drawable ws m"
  shows "\<exists>ws1 ws2. notify_n nc n ''rotate'' env ws = Inr ws1 \<and>
                   notify_n nc n ''rotate-back'' env ws1 = Inr ws2 \<and>
                   ws_windowsOrder ws2 = ws_windowsOrder ws"
proof -
  have "\<exists>ws1 ws2. notify_n nc n ''rotate'' env ws = Inr ws1 \<and>
                  notify_n nc n ''rotate-back'' env ws1 = Inr ws2 \<and>
                  ws_windowsOrder ws2 = ws_windowsOrder ws \<and>
                  (\<forall>m. drawable ws2 m = drawable ws m)"
    using assms
  proof (induction n arbitrary: ws)
    case 0
    then show ?case by simp
  next
    case (Suc n)
    let ?xs = "ws_windowsOrder ws"
    from notify_rotate_step [OF Suc.prems, of nc env]
    obtain wsa where wsa: "notify nc ''rotate'' env ws = Inr wsa"
        "ws_windowsOrder wsa = last ?xs # butlast ?xs"
        "\<forall>m. drawable wsa m = drawable ws m"
      by blast
    from wsa(2) have ne: "ws_windowsOrder wsa \<noteq> []" by simp
    from rotate_right_list(1) [OF Suc.prems(1)] wsa(2)
    have same: "set (ws_windowsOrder wsa) = set ?xs" by simp
    with Suc.prems(2) wsa(3) have dr: "\<forall>m\<in>set (ws_windowsOrder wsa). drawable wsa m" by simp
    from Suc.IH [OF ne dr]
    obtain ws1 ws2 where ih: "notify_n nc n ''rotate'' env wsa = Inr ws1"
        "notify_n nc n ''rotate-back'' env ws1 = Inr ws2"
        "ws_windowsOrder ws2 = ws_windowsOrder wsa"
        "\<forall>m. drawable ws2 m = drawable wsa m"
      by blast
    have fwd: "notify_n nc (Suc n) ''rotate'' env ws = Inr ws1"
      by (simp add: wsa(1) ih(1))
    from ih(3) ne have ne2: "ws_windowsOrder ws2 \<noteq> []" by simp
    from dr ih(3,4) have dr2: "\<forall>m\<in>set (ws_windowsOrder ws2). drawable ws2 m" by simp
    from notify_rotate_back_step [OF ne2 dr2, of nc env]
    obtain ws3 where ws3: "notify nc ''rotate-back'' env ws2 = Inr ws3"
        "ws_windowsOrder ws3 = tl (ws_windowsOrder ws2) @ [hd (ws_windowsOrder ws2)]"
        "\<forall>m. drawable ws3 m = drawable ws2 m"
      by blast
    have bwd: "notify_n nc (Suc n) ''rotate-back'' env ws1 = Inr ws3"
      by (simp only: notify_n_Suc_right ih(2) bind_err_Inr ws3(1))
    have "ws_windowsOrder ws3 = ?xs"
      using Suc.prems(1) by (simp add: ws3(2) ih(3) wsa(2))
    moreover have "\<forall>m. drawable ws3 m = drawable ws m"
      by (simp add: ws3(3) ih(4) wsa(3))
    ultimately show ?case using fwd bwd by blast
  qed
  then show ?thesis by blast
qed

text \<open>
  Four rotations forward and four backward on the focus order \<open>[A, B, C]\<close>.
\<close>

theorem rotation_round_trip_witness:
  "ws_windowsOrder reg_ABC \<noteq> [] \<and>
   (\<exists>ws1 ws2. notify_n nc_plain 4 ''rotate'' () reg_ABC = Inr ws1 \<and>
              notify_n nc_plain 4 ''rotate-back'' () ws1 = Inr ws2 \<and>
              ws_windowsOrder ws2 = [''A'', ''B'', ''C''])"
proof -
  have a: "ws_windowsOrder reg_ABC \<noteq> []" by (simp add: reg_ABC_def)
  from rotation_round_trip [OF a reg_ABC_drawable, of nc_plain 4 "()"]
  show ?thesis using a by (simp add: reg_ABC_def)
qed

text \<open>
  C3 as the specification states it fails. With the focus order \<open>[X]\<close> and no window
  \<open>X\<close>, the first \<open>rotate\<close> creates a default-constructed window under \<open>X\<close> and draws
  on its uninitialised \<^verbatim>\<open>WINDOW*\<close>; with the empty focus order the first \<open>rotate\<close> is
  the undefined rotation of C10. No focus order results in either case.
\<close>

theorem rotation_round_trip_counterexample:
  "bind_err (notify_n nc_plain 1 ''rotate'' () reg_X)
     (\<lambda>ws1. notify_n nc_plain 1 ''rotate-back'' () ws1) = Inl UndefinedBehaviour \<and>
   bind_err (notify_n nc_plain 1 ''rotate'' () Windows_default)
     (\<lambda>ws1. notify_n nc_plain 1 ''rotate-back'' () ws1) = Inl UndefinedBehaviour"
  by (simp add: reg_X_def windowsOrder_set_def Windows_default_def notify_def
        rotateSelectedWindow_def rotateRightSelectedWindow_def std_rotate_def
        updateMarkedWindow_def vec_at_def Windows_apply_def Windows_index_def
        Window_markSelected_def Window_draw_uninit Window_default_def Let_def)

end
